theory Spec2Isabelle
  imports Complex_Main
begin

section \<open>Data model\<close>

text \<open>
  The notebook \<^verbatim>\<open>3-quantum-gradients.ipynb\<close> defines three functions of its own:
  \<^verbatim>\<open>parameter_shift_term\<close>, \<^verbatim>\<open>parameter_shift\<close> and \<^verbatim>\<open>num_evals\<close>. They work on NumPy
  arrays, which are mutable objects with reference semantics, so arrays live in a store and
  the functions pass references around.

  Numbers: NumPy's \<^verbatim>\<open>float64\<close> entries are read as real numbers. Rounding is not modelled;
  every statement about values below is a statement in exact arithmetic.
\<close>

text \<open>
  Exceptions. \<open>IndexError\<close> and \<open>TypeError\<close> are what Python and NumPy raise on the paths
  of these functions; \<open>OracleFailure e\<close> is an exception \<open>e\<close> raised inside the circuit
  evaluator. \<open>ValueError\<close> and \<open>ShapeError\<close> are the error classes the specification names;
  the notebook has no \<^verbatim>\<open>raise\<close> statement, and no definition below constructs them.
\<close>

datatype 'e error = IndexError | TypeError | ValueError | ShapeError | OracleFailure 'e

text \<open>
  Array objects. \<open>Float2D W rows\<close> is a two-dimensional array of element type \<^verbatim>\<open>float64\<close> and
  of shape \<open>(length rows, W)\<close>; the column count is kept beside the rows because NumPy
  keeps the shape of an array with no rows. \<open>Int2D W rows\<close> is the same with element type
  \<^verbatim>\<open>int64\<close>, as \<^verbatim>\<open>np.array([[0]])\<close> is: an array keeps its element type, and a float written
  into an integer array is cut to its integer part. (The integers are unbounded here; the
  range of \<^verbatim>\<open>int64\<close> is not modelled.) \<open>Array1D items\<close> is a one-dimensional array of Python
  objects: this is what \<^verbatim>\<open>np.array\<close> makes of a nested list whose rows differ in length
  (an array of the row lists), with the NumPy releases the notebook was written for. (From
  NumPy 1.24 on such a list is rejected with a ValueError when the array is built, so that no
  array reaches the functions.)
\<close>

datatype pyitem = PyInt int | PyList "real list"

datatype ndarray =
  Float2D nat "real list list" | Int2D nat "int list list" | Array1D "pyitem list"

datatype dtype = Float64 | Int64 | Object

fun dtype_of :: "ndarray \<Rightarrow> dtype" where
  "dtype_of (Float2D W rows) = Float64"
| "dtype_of (Int2D W rows) = Int64"
| "dtype_of (Array1D items) = Object"

type_synonym ref = nat

text \<open>
  The store is the list of all array objects allocated so far; a reference is a position in
  it. \<open>calls\<close> logs every evaluation of the circuit, with the arguments it was given (the
  array by value, as it was at the moment of the call).
\<close>

record pystate =
  heap :: "ndarray list"
  calls :: "(real list \<times> ndarray) list"

type_synonym 'e qnode = "real list \<Rightarrow> ndarray \<Rightarrow> 'e + real"

fun well_formed :: "ndarray \<Rightarrow> bool" where
  "well_formed (Float2D W rows) = list_all (\<lambda>r. length r = W) rows"
| "well_formed (Int2D W rows) = list_all (\<lambda>r. length r = W) rows"
| "well_formed (Array1D items) = True"

fun shape :: "ndarray \<Rightarrow> nat list" where
  "shape (Float2D W rows) = [length rows, W]"
| "shape (Int2D W rows) = [length rows, W]"
| "shape (Array1D items) = [length items]"

text \<open>\<^verbatim>\<open>np.array(nested)\<close> on a list of rows of floats (line 132 builds \<^verbatim>\<open>w\<close> this way).\<close>

definition rectangular :: "real list list \<Rightarrow> bool" where
  "rectangular rows = list_all (\<lambda>r. length r = length (hd rows)) rows"

definition array :: "real list list \<Rightarrow> ndarray" where
  "array rows = (if rows \<noteq> [] \<and> rectangular rows then Float2D (length (hd rows)) rows
                 else Array1D (map PyList rows))"

section \<open>The NumPy operations the notebook uses\<close>

definition alloc :: "ndarray \<Rightarrow> pystate \<Rightarrow> ref \<times> pystate" where
  "alloc a s = (length (heap s), s\<lparr>heap := heap s @ [a]\<rparr>)"

text \<open>
  \<^verbatim>\<open>np.zeros_like(a)\<close>: a new array of the shape and of the element type of \<open>a\<close>, filled
  with zero.
\<close>

fun zeros :: "ndarray \<Rightarrow> ndarray" where
  "zeros (Float2D W rows) = Float2D W (replicate (length rows) (replicate W 0))"
| "zeros (Int2D W rows) = Int2D W (replicate (length rows) (replicate W 0))"
| "zeros (Array1D items) = Array1D (replicate (length items) (PyInt 0))"

definition zeros_like :: "ref \<Rightarrow> pystate \<Rightarrow> ref \<times> pystate" where
  "zeros_like r s = alloc (zeros (heap s ! r)) s"

text \<open>\<^verbatim>\<open>a.copy()\<close>: a new array object with the same contents.\<close>

definition copy :: "ref \<Rightarrow> pystate \<Rightarrow> ref \<times> pystate" where
  "copy r s = alloc (heap s ! r) s"

text \<open>\<^verbatim>\<open>len(a)\<close> and \<^verbatim>\<open>len(a[0])\<close>.\<close>

fun len :: "ndarray \<Rightarrow> nat" where
  "len (Float2D W rows) = length rows"
| "len (Int2D W rows) = length rows"
| "len (Array1D items) = length items"

fun len_first :: "ndarray \<Rightarrow> 'e error + nat" where
  "len_first (Float2D W rows) = (if rows = [] then Inl IndexError else Inr W)"
| "len_first (Int2D W rows) = (if rows = [] then Inl IndexError else Inr W)"
| "len_first (Array1D []) = Inl IndexError"
| "len_first (Array1D (PyInt n # items)) = Inl TypeError"
| "len_first (Array1D (PyList l # items)) = Inr (length l)"

text \<open>An index along an axis of size \<open>n\<close>: negative indices count from the end.\<close>

definition norm_index :: "nat \<Rightarrow> int \<Rightarrow> nat option" where
  "norm_index n i =
     (if 0 \<le> i \<and> i < int n then Some (nat i)
      else if - int n \<le> i \<and> i < 0 then Some (nat (i + int n))
      else None)"

text \<open>
  \<^verbatim>\<open>a[i, j]\<close> read and written. \<open>entry\<close> is the entry at a position, if the array has
  one there; an index out of range, or two indices into a one-dimensional array, are an
  IndexError.
\<close>

fun entry :: "ndarray \<Rightarrow> int \<Rightarrow> int \<Rightarrow> real option" where
  "entry (Float2D W rows) i j =
     (case norm_index (length rows) i of
        None \<Rightarrow> None
      | Some i' \<Rightarrow> (case norm_index W j of
          None \<Rightarrow> None
        | Some j' \<Rightarrow> Some (rows ! i' ! j')))"
| "entry (Int2D W rows) i j =
     (case norm_index (length rows) i of
        None \<Rightarrow> None
      | Some i' \<Rightarrow> (case norm_index W j of
          None \<Rightarrow> None
        | Some j' \<Rightarrow> Some (of_int (rows ! i' ! j'))))"
| "entry (Array1D items) i j = None"

definition getitem :: "ndarray \<Rightarrow> int \<Rightarrow> int \<Rightarrow> 'e error + real" where
  "getitem a i j = (case entry a i j of None \<Rightarrow> Inl IndexError | Some v \<Rightarrow> Inr v)"

text \<open>The cast of a float to an integer element: the fraction is dropped.\<close>

definition trunc :: "real \<Rightarrow> int" where
  "trunc v = (if 0 \<le> v then \<lfloor>v\<rfloor> else \<lceil>v\<rceil>)"

fun put :: "ndarray \<Rightarrow> int \<Rightarrow> int \<Rightarrow> real \<Rightarrow> 'e error + ndarray" where
  "put (Float2D W rows) i j v =
     (case norm_index (length rows) i of
        None \<Rightarrow> Inl IndexError
      | Some i' \<Rightarrow> (case norm_index W j of
          None \<Rightarrow> Inl IndexError
        | Some j' \<Rightarrow> Inr (Float2D W (rows[i' := (rows ! i')[j' := v]]))))"
| "put (Int2D W rows) i j v =
     (case norm_index (length rows) i of
        None \<Rightarrow> Inl IndexError
      | Some i' \<Rightarrow> (case norm_index W j of
          None \<Rightarrow> Inl IndexError
        | Some j' \<Rightarrow> Inr (Int2D W (rows[i' := (rows ! i')[j' := trunc v]]))))"
| "put (Array1D items) i j v = Inl IndexError"

definition setitem :: "ref \<Rightarrow> int \<Rightarrow> int \<Rightarrow> real \<Rightarrow> pystate \<Rightarrow> ('e error + unit) \<times> pystate" where
  "setitem r i j v s =
     (case put (heap s ! r) i j v of
        Inl e \<Rightarrow> (Inl e, s)
      | Inr a \<Rightarrow> (Inr (), s\<lparr>heap := (heap s)[r := a]\<rparr>))"

text \<open>\<^verbatim>\<open>a[i, j] += v\<close> and \<^verbatim>\<open>a[i, j] -= v\<close>: read the entry, then write it back.\<close>

definition iadd :: "ref \<Rightarrow> int \<Rightarrow> int \<Rightarrow> real \<Rightarrow> pystate \<Rightarrow> ('e error + unit) \<times> pystate" where
  "iadd r i j v s =
     (case getitem (heap s ! r) i j of
        Inl e \<Rightarrow> (Inl e, s)
      | Inr u \<Rightarrow> setitem r i j (u + v) s)"

definition isub :: "ref \<Rightarrow> int \<Rightarrow> int \<Rightarrow> real \<Rightarrow> pystate \<Rightarrow> ('e error + unit) \<times> pystate" where
  "isub r i j v s =
     (case getitem (heap s ! r) i j of
        Inl e \<Rightarrow> (Inl e, s)
      | Inr u \<Rightarrow> setitem r i j (u - v) s)"

text \<open>
  One evaluation of the circuit, \<^verbatim>\<open>qnode(x, a)\<close>. The evaluator is a function of the data
  vector and of the contents of the array; it returns a number or raises.
\<close>

definition call :: "'e qnode \<Rightarrow> real list \<Rightarrow> ref \<Rightarrow> pystate \<Rightarrow> ('e error + real) \<times> pystate" where
  "call qnode x r s =
     (let s' = s\<lparr>calls := calls s @ [(x, heap s ! r)]\<rparr>
      in case qnode x (heap s ! r) of
           Inl e \<Rightarrow> (Inl (OracleFailure e), s')
         | Inr v \<Rightarrow> (Inr v, s'))"

section \<open>The notebook's functions\<close>

text \<open>
  \<^verbatim>\<open>
  def parameter_shift_term(qnode, params, x, i, j):
      shifted = params.copy()
      shifted[i, j] += np.pi/2
      forward = qnode(x, shifted)  # forward evaluation
      shifted[i, j] -= np.pi
      backward = qnode(x, shifted) # backward evaluation
      return 0.5 * (forward - backward)
  \<close>
\<close>

definition parameter_shift_term ::
  "'e qnode \<Rightarrow> ref \<Rightarrow> real list \<Rightarrow> int \<Rightarrow> int \<Rightarrow> pystate \<Rightarrow> ('e error + real) \<times> pystate" where
  "parameter_shift_term qnode params x i j s =
     (case copy params s of (shifted, s1) \<Rightarrow>
      (case iadd shifted i j (pi / 2) s1 of
         (Inl e, s2) \<Rightarrow> (Inl e, s2)
       | (Inr u, s2) \<Rightarrow>
      (case call qnode x shifted s2 of
         (Inl e, s3) \<Rightarrow> (Inl e, s3)
       | (Inr forward, s3) \<Rightarrow>
      (case isub shifted i j pi s3 of
         (Inl e, s4) \<Rightarrow> (Inl e, s4)
       | (Inr u, s4) \<Rightarrow>
      (case call qnode x shifted s4 of
         (Inl e, s5) \<Rightarrow> (Inl e, s5)
       | (Inr backward, s5) \<Rightarrow> (Inr (0.5 * (forward - backward)), s5))))))"

text \<open>
  \<^verbatim>\<open>
  def parameter_shift(qnode, params, x):
      gradients = np.zeros_like((params))
      for i in range(len(gradients)):
          for j in range(len(gradients[0])):
              gradients[i, j] = parameter_shift_term(qnode, w, x, i, j)
      return gradients
  \<close>
  The name \<^verbatim>\<open>w\<close> in the loop body is not an argument of the function: it is the module-level
  variable of line 132. The model takes the array it is bound to as the argument \<open>w\<close>.
\<close>

fun inner_loop ::
  "ref \<Rightarrow> 'e qnode \<Rightarrow> real list \<Rightarrow> ref \<Rightarrow> nat \<Rightarrow> nat list \<Rightarrow> pystate \<Rightarrow> ('e error + unit) \<times> pystate" where
  "inner_loop w qnode x gradients i [] s = (Inr (), s)"
| "inner_loop w qnode x gradients i (j # js) s =
     (case parameter_shift_term qnode w x (int i) (int j) s of
        (Inl e, s1) \<Rightarrow> (Inl e, s1)
      | (Inr v, s1) \<Rightarrow>
     (case setitem gradients (int i) (int j) v s1 of
        (Inl e, s2) \<Rightarrow> (Inl e, s2)
      | (Inr u, s2) \<Rightarrow> inner_loop w qnode x gradients i js s2))"

fun outer_loop ::
  "ref \<Rightarrow> 'e qnode \<Rightarrow> real list \<Rightarrow> ref \<Rightarrow> nat list \<Rightarrow> pystate \<Rightarrow> ('e error + unit) \<times> pystate" where
  "outer_loop w qnode x gradients [] s = (Inr (), s)"
| "outer_loop w qnode x gradients (i # is) s =
     (case len_first (heap s ! gradients) of
        Inl e \<Rightarrow> (Inl e, s)
      | Inr n \<Rightarrow>
     (case inner_loop w qnode x gradients i [0..<n] s of
        (Inl e, s1) \<Rightarrow> (Inl e, s1)
      | (Inr u, s1) \<Rightarrow> outer_loop w qnode x gradients is s1))"

definition parameter_shift ::
  "ref \<Rightarrow> 'e qnode \<Rightarrow> ref \<Rightarrow> real list \<Rightarrow> pystate \<Rightarrow> ('e error + ref) \<times> pystate" where
  "parameter_shift w qnode params x s =
     (case zeros_like params s of (gradients, s0) \<Rightarrow>
      (case outer_loop w qnode x gradients [0..<len (heap s0 ! gradients)] s0 of
         (Inl e, s1) \<Rightarrow> (Inl e, s1)
       | (Inr u, s1) \<Rightarrow> (Inr gradients, s1)))"

text \<open>
  \<^verbatim>\<open>
  def num_evals(n_params, n_steps):
      return 2*n_params*n_steps
  \<close>
  on Python integers. The body has no check and no \<^verbatim>\<open>raise\<close>: it always returns.
\<close>

definition num_evals :: "int \<Rightarrow> int \<Rightarrow> 'e error + int" where
  "num_evals n_params n_steps = Inr (2 * n_params * n_steps)"

section \<open>Notions used to state the properties\<close>

text \<open>
  \<open>shifted_by a i j d\<close> is the array \<open>a\<close> with the entry at \<open>(i, j)\<close> increased by \<open>d\<close>
  (and cut to an integer in an integer array) and every other entry as it is.
\<close>

fun shifted_by :: "ndarray \<Rightarrow> int \<Rightarrow> int \<Rightarrow> real \<Rightarrow> ndarray" where
  "shifted_by (Float2D W rows) i j d =
     (case norm_index (length rows) i of
        None \<Rightarrow> Float2D W rows
      | Some i' \<Rightarrow> (case norm_index W j of
          None \<Rightarrow> Float2D W rows
        | Some j' \<Rightarrow> Float2D W (rows[i' := (rows ! i')[j' := rows ! i' ! j' + d]])))"
| "shifted_by (Int2D W rows) i j d =
     (case norm_index (length rows) i of
        None \<Rightarrow> Int2D W rows
      | Some i' \<Rightarrow> (case norm_index W j of
          None \<Rightarrow> Int2D W rows
        | Some j' \<Rightarrow>
            Int2D W (rows[i' := (rows ! i')[j' := trunc (of_int (rows ! i' ! j') + d)]])))"
| "shifted_by (Array1D items) i j d = Array1D items"

text \<open>
  \<open>same_elsewhere a i j b\<close>: \<open>b\<close> has the shape of \<open>a\<close> and the same entry as \<open>a\<close> at
  every position other than \<open>(i, j)\<close>.
\<close>

fun same_elsewhere :: "ndarray \<Rightarrow> int \<Rightarrow> int \<Rightarrow> ndarray \<Rightarrow> bool" where
  "same_elsewhere (Float2D W rows) i j (Float2D W' rows') =
     (W' = W \<and> length rows' = length rows \<and>
      (\<forall>i'\<in>{..<length rows}. \<forall>j'\<in>{..<W}.
         rows' ! i' ! j' = rows ! i' ! j'
         \<or> (norm_index (length rows) i = Some i' \<and> norm_index W j = Some j')))"
| "same_elsewhere (Int2D W rows) i j (Int2D W' rows') =
     (W' = W \<and> length rows' = length rows \<and>
      (\<forall>i'\<in>{..<length rows}. \<forall>j'\<in>{..<W}.
         rows' ! i' ! j' = rows ! i' ! j'
         \<or> (norm_index (length rows) i = Some i' \<and> norm_index W j = Some j')))"
| "same_elsewhere (Array1D items) i j b = (b = Array1D items)"
| "same_elsewhere a i j b = False"

text \<open>The circuit evaluations logged between two states, and the exception of a result.\<close>

definition new_calls :: "pystate \<Rightarrow> pystate \<Rightarrow> (real list \<times> ndarray) list" where
  "new_calls s s' = drop (length (calls s)) (calls s')"

fun failure :: "'a + 'b \<Rightarrow> 'a option" where
  "failure (Inl e) = Some e"
| "failure (Inr v) = None"

text \<open>
  \<open>stops_at_failure qnode err cs\<close>: in the sequence \<open>cs\<close> of evaluations, one that raises
  is the last one, and its exception is the outcome \<open>err\<close> of the run.
\<close>

definition stops_at_failure ::
  "'e qnode \<Rightarrow> 'e error option \<Rightarrow> (real list \<times> ndarray) list \<Rightarrow> bool" where
  "stops_at_failure qnode err cs =
     (\<forall>k<length cs. \<forall>e. qnode (fst (cs ! k)) (snd (cs ! k)) = Inl e
        \<longrightarrow> err = Some (OracleFailure e) \<and> Suc k = length cs)"

text \<open>
  \<open>writes_only g s s'\<close>: from \<open>s\<close> to \<open>s'\<close> the store has grown, and of the objects that
  existed in \<open>s\<close> only the one at \<open>g\<close> may have changed.
\<close>

definition writes_only :: "ref \<Rightarrow> pystate \<Rightarrow> pystate \<Rightarrow> bool" where
  "writes_only g s s' =
     (length (heap s) \<le> length (heap s')
      \<and> (\<forall>a<length (heap s). a \<noteq> g \<longrightarrow> heap s' ! a = heap s ! a))"

definition run_ok :: "'e qnode \<Rightarrow> ref \<Rightarrow> pystate \<Rightarrow> 'e error option \<Rightarrow> pystate \<Rightarrow> bool" where
  "run_ok qnode g s err s' =
     (writes_only g s s'
      \<and> (\<exists>cs. calls s' = calls s @ cs \<and> stops_at_failure qnode err cs))"

text \<open>The exceptions that Python, NumPy or the evaluator can raise on these paths.\<close>

fun from_python :: "'e error \<Rightarrow> bool" where
  "from_python ShapeError = False"
| "from_python ValueError = False"
| "from_python e = True"

text \<open>
  The shift estimate of the entry \<open>(i, j)\<close> of a tensor \<open>a\<close>:
  \<open>0.5 * (qnode(x, a with (i, j) + \<pi>/2) - qnode(x, a with (i, j) - \<pi>/2))\<close>, the value of
  an evaluation that returns being what it returns.
\<close>

fun result :: "'e + real \<Rightarrow> real" where
  "result (Inr v) = v"
| "result (Inl e) = 0"

definition estimate :: "'e qnode \<Rightarrow> real list \<Rightarrow> ndarray \<Rightarrow> nat \<Rightarrow> nat \<Rightarrow> real" where
  "estimate qnode x a i j =
     0.5 * (result (qnode x (shifted_by a (int i) (int j) (pi / 2)))
            - result (qnode x (shifted_by a (int i) (int j) (- (pi / 2)))))"

text \<open>
  \<open>shifted_copies a x cs\<close>: every evaluation in \<open>cs\<close> was given the data vector \<open>x\<close> and
  an array that has the shape of \<open>a\<close> and differs from \<open>a\<close> in at most one entry.
\<close>

definition shifted_copies :: "ndarray \<Rightarrow> real list \<Rightarrow> (real list \<times> ndarray) list \<Rightarrow> bool" where
  "shifted_copies a x cs =
     (\<forall>c\<in>set cs. fst c = x \<and> (\<exists>i j. same_elsewhere a i j (snd c)))"

subsection \<open>Concrete inputs\<close>

text \<open>The notebook's own data (lines 131 and 132).\<close>

definition notebook_x :: "real list" where
  "notebook_x = [1 / 10, 2 / 10]"

definition notebook_w :: ndarray where
  "notebook_w = Float2D 2 [[- 21 / 10, 12 / 10], [- 14 / 10, - 39 / 10], [5 / 10, 2 / 10]]"

text \<open>
  Evaluators for the examples: a constant one; \<^verbatim>\<open>lambda x, p: p[0, 0]\<close>;
  \<^verbatim>\<open>lambda x, p: p[0, 0] ** 2\<close>;
  \<^verbatim>\<open>lambda x, p: cos(p[i, j])\<close>; and one that raises on a negative angle.
\<close>

definition zero_qnode :: "unit qnode" where
  "zero_qnode x a = Inr 0"

definition first_qnode :: "unit error qnode" where
  "first_qnode x a = getitem a 0 0"

definition square_qnode :: "unit error qnode" where
  "square_qnode x a = (case getitem a 0 0 of Inl e \<Rightarrow> Inl e | Inr t \<Rightarrow> Inr (t * t))"

definition cos_qnode :: "int \<Rightarrow> int \<Rightarrow> unit error qnode" where
  "cos_qnode i j x a = (case getitem a i j of Inl e \<Rightarrow> Inl e | Inr t \<Rightarrow> Inr (cos t))"

definition fragile_qnode :: "string qnode" where
  "fragile_qnode x a =
     (case entry a 0 0 of
        None \<Rightarrow> Inl ''no angle''
      | Some t \<Rightarrow> if t < 0 then Inl ''negative angle'' else Inr t)"

section \<open>Properties of the operations and of the loops\<close>

subsection \<open>Indices and entries\<close>

lemma norm_index_nat [simp]: "norm_index n (int k) = (if k < n then Some k else None)"
  by (simp add: norm_index_def)

lemma norm_index_less: "norm_index n i = Some k \<Longrightarrow> k < n"
  by (auto simp add: norm_index_def split: if_splits)

lemma getitem_Float2D [simp]:
  "getitem (Float2D W rows) i j =
     (case norm_index (length rows) i of
        None \<Rightarrow> Inl IndexError
      | Some i' \<Rightarrow> (case norm_index W j of
          None \<Rightarrow> Inl IndexError
        | Some j' \<Rightarrow> Inr (rows ! i' ! j')))"
  by (simp add: getitem_def split: option.splits)

lemma getitem_Int2D [simp]:
  "getitem (Int2D W rows) i j =
     (case norm_index (length rows) i of
        None \<Rightarrow> Inl IndexError
      | Some i' \<Rightarrow> (case norm_index W j of
          None \<Rightarrow> Inl IndexError
        | Some j' \<Rightarrow> Inr (of_int (rows ! i' ! j'))))"
  by (simp add: getitem_def split: option.splits)

lemma getitem_Array1D [simp]: "getitem (Array1D items) i j = Inl IndexError"
  by (simp add: getitem_def)

subsection \<open>What each operation does to the store and to the log\<close>

lemma copy_eq: "copy r s = (length (heap s), s\<lparr>heap := heap s @ [heap s ! r]\<rparr>)"
  by (simp add: copy_def alloc_def)

lemma setitem_frame:
  "setitem r i j v s = (res, s') \<Longrightarrow>
     calls s' = calls s \<and> length (heap s') = length (heap s)
     \<and> (\<forall>a. a \<noteq> r \<longrightarrow> heap s' ! a = heap s ! a)"
  by (auto simp add: setitem_def split: sum.splits)

lemma iadd_frame:
  "iadd r i j v s = (res, s') \<Longrightarrow>
     calls s' = calls s \<and> length (heap s') = length (heap s)
     \<and> (\<forall>a. a \<noteq> r \<longrightarrow> heap s' ! a = heap s ! a)"
  by (auto simp add: iadd_def split: sum.splits dest: setitem_frame)

lemma isub_frame:
  "isub r i j v s = (res, s') \<Longrightarrow>
     calls s' = calls s \<and> length (heap s') = length (heap s)
     \<and> (\<forall>a. a \<noteq> r \<longrightarrow> heap s' ! a = heap s ! a)"
  by (auto simp add: isub_def split: sum.splits dest: setitem_frame)

lemma call_frame:
  "call qnode x r s = (res, s') \<Longrightarrow>
     heap s' = heap s \<and> calls s' = calls s @ [(x, heap s ! r)]"
  by (auto simp add: call_def Let_def split: sum.splits)

lemma pst_heap:
  assumes "parameter_shift_term qnode p x i j s = (res, s')"
  shows "length (heap s') = Suc (length (heap s))
         \<and> (\<forall>a<length (heap s). heap s' ! a = heap s ! a)"
  using assms
  apply (simp add: parameter_shift_term_def copy_eq split: prod.splits sum.splits)
  apply (auto dest!: iadd_frame isub_frame call_frame simp add: nth_append)
  done

subsection \<open>The single-entry shift, case by case\<close>

text \<open>
  On a well-formed array the outcome of \<open>parameter_shift_term\<close> is decided by the entry read
  and by the two evaluations, in this order.
\<close>

lemma heap_update_fresh [simp]: "(h @ [a])[length h := b] = h @ [b]"
  by (simp add: list_update_append)

lemma parameter_shift_term_eq:
  assumes wf: "well_formed (heap s ! p)" and fl: "dtype_of (heap s ! p) \<noteq> Int64"
  shows "parameter_shift_term qnode p x i j s =
     (case getitem (heap s ! p) i j of
        Inl e \<Rightarrow> (Inl e, s\<lparr>heap := heap s @ [heap s ! p]\<rparr>)
      | Inr u \<Rightarrow>
        (case qnode x (shifted_by (heap s ! p) i j (pi / 2)) of
           Inl e \<Rightarrow> (Inl (OracleFailure e),
                      s\<lparr>heap := heap s @ [shifted_by (heap s ! p) i j (pi / 2)],
                        calls := calls s @ [(x, shifted_by (heap s ! p) i j (pi / 2))]\<rparr>)
         | Inr forward \<Rightarrow>
           (case qnode x (shifted_by (heap s ! p) i j (- (pi / 2))) of
              Inl e \<Rightarrow> (Inl (OracleFailure e),
                      s\<lparr>heap := heap s @ [shifted_by (heap s ! p) i j (- (pi / 2))],
                        calls := calls s @ [(x, shifted_by (heap s ! p) i j (pi / 2)),
                                           (x, shifted_by (heap s ! p) i j (- (pi / 2)))]\<rparr>)
            | Inr backward \<Rightarrow> (Inr (0.5 * (forward - backward)),
                      s\<lparr>heap := heap s @ [shifted_by (heap s ! p) i j (- (pi / 2))],
                        calls := calls s @ [(x, shifted_by (heap s ! p) i j (pi / 2)),
                                           (x, shifted_by (heap s ! p) i j (- (pi / 2)))]\<rparr>))))"
proof (cases "heap s ! p")
  case (Array1D items)
  then show ?thesis
    by (simp add: parameter_shift_term_def copy_eq iadd_def)
next
  case (Int2D W rows)
  with fl show ?thesis by simp
next
  case (Float2D W rows)
  show ?thesis
  proof (cases "norm_index (length rows) i")
    case None
    with Float2D show ?thesis
      by (simp add: parameter_shift_term_def copy_eq iadd_def)
  next
    case (Some i')
    note Si = this
    show ?thesis
    proof (cases "norm_index W j")
      case None
      with Float2D Si show ?thesis
        by (simp add: parameter_shift_term_def copy_eq iadd_def)
    next
      case (Some j')
      have i': "i' < length rows" using Si by (rule norm_index_less)
      have j': "j' < W" using Some by (rule norm_index_less)
      have "length (rows ! i') = W"
        using wf Float2D i' by (simp add: list_all_length)
      with j' have jl: "j' < length (rows ! i')" by simp
      show ?thesis
        using Float2D Si Some i' jl
        by (simp add: parameter_shift_term_def copy_eq iadd_def isub_def setitem_def
            call_def Let_def split: sum.splits)
    qed
  qed
qed

subsection \<open>Evaluations stop at the first failure\<close>

lemma stops_nil [simp]: "stops_at_failure qnode err []"
  by (simp add: stops_at_failure_def)

lemma stops_append:
  assumes "stops_at_failure qnode None cs" and "stops_at_failure qnode err ds"
  shows "stops_at_failure qnode err (cs @ ds)"
  unfolding stops_at_failure_def
proof (intro allI impI)
  fix k e
  assume k: "k < length (cs @ ds)"
    and f: "qnode (fst ((cs @ ds) ! k)) (snd ((cs @ ds) ! k)) = Inl e"
  show "err = Some (OracleFailure e) \<and> Suc k = length (cs @ ds)"
  proof (cases "k < length cs")
    case True
    with assms(1) f show ?thesis
      by (auto simp add: stops_at_failure_def nth_append)
  next
    case False
    with k have "k - length cs < length ds" by simp
    moreover from False f
    have "qnode (fst (ds ! (k - length cs))) (snd (ds ! (k - length cs))) = Inl e"
      by (simp add: nth_append)
    ultimately have "err = Some (OracleFailure e) \<and> Suc (k - length cs) = length ds"
      using assms(2) by (simp add: stops_at_failure_def)
    with False show ?thesis by auto
  qed
qed

lemma stops_weaken: "stops_at_failure qnode None cs \<Longrightarrow> stops_at_failure qnode err cs"
  by (simp add: stops_at_failure_def)

lemma call_trace:
  assumes "call qnode x r s = (res, s')"
  shows "heap s' = heap s \<and> calls s' = calls s @ [(x, heap s ! r)]
         \<and> stops_at_failure qnode (failure res) [(x, heap s ! r)]"
  using assms
  by (auto simp add: call_def Let_def stops_at_failure_def split: sum.splits)

lemma pst_trace:
  assumes "parameter_shift_term qnode p x i j s = (res, s')"
  shows "\<exists>cs. calls s' = calls s @ cs \<and> stops_at_failure qnode (failure res) cs"
proof -
  obtain s1 where c: "copy p s = (length (heap s), s1)" and s1: "calls s1 = calls s"
    by (simp add: copy_eq)
  show ?thesis
  proof (cases "iadd (length (heap s)) i j (pi / 2) s1 :: ('a error + unit) \<times> pystate")
    case (Pair r2 s2)
    then have s2: "calls s2 = calls s" using s1 by (auto dest: iadd_frame)
    show ?thesis
    proof (cases r2)
      case (Inl e)
      with assms c Pair s2 show ?thesis
        by (auto simp add: parameter_shift_term_def)
    next
      case (Inr u)
      note r2 = this
      obtain r3 s3 where c3: "call qnode x (length (heap s)) s2 = (r3, s3)"
        by (cases "call qnode x (length (heap s)) s2")
      from call_trace [OF c3] have s3: "calls s3 = calls s @ [(x, heap s2 ! length (heap s))]"
        and ok3: "stops_at_failure qnode (failure r3) [(x, heap s2 ! length (heap s))]"
        using s2 by auto
      show ?thesis
      proof (cases r3)
        case (Inl e)
        with assms c Pair r2 c3 s3 ok3 show ?thesis
          by (auto simp add: parameter_shift_term_def)
      next
        case (Inr forward)
        note r3 = this
        show ?thesis
        proof (cases "isub (length (heap s)) i j pi s3 :: ('a error + unit) \<times> pystate")
          case (Pair r4 s4)
          note c4 = this
          then have s4: "calls s4 = calls s3" by (auto dest: isub_frame)
          show ?thesis
          proof (cases r4)
            case (Inl e)
            with assms c \<open>iadd _ _ _ _ _ = _\<close> r2 c3 r3 c4 s3 s4 ok3 show ?thesis
              by (auto simp add: parameter_shift_term_def intro: stops_weaken)
          next
            case (Inr u')
            note r4 = this
            obtain r5 s5 where c5: "call qnode x (length (heap s)) s4 = (r5, s5)"
              by (cases "call qnode x (length (heap s)) s4")
            from call_trace [OF c5]
            have s5: "calls s5 = calls s3 @ [(x, heap s4 ! length (heap s))]"
              and ok5: "stops_at_failure qnode (failure r5) [(x, heap s4 ! length (heap s))]"
              using s4 by auto
            from ok3 r3 have "stops_at_failure qnode None [(x, heap s2 ! length (heap s))]"
              by simp
            from stops_append [OF this ok5]
            have ok: "stops_at_failure qnode (failure r5)
                    ([(x, heap s2 ! length (heap s))] @ [(x, heap s4 ! length (heap s))])" .
            have res: "failure res = failure r5 \<and> s' = s5"
              using assms c \<open>iadd _ _ _ _ _ = _\<close> r2 c3 r3 c4 r4 c5
              by (auto simp add: parameter_shift_term_def split: sum.splits)
            with ok s5 s3 show ?thesis by auto
          qed
        qed
      qed
    qed
  qed
qed

subsection \<open>Runs of the loops\<close>

text \<open>
  Every run, of one shift, of a loop or of the whole function, grows the store, writes to no
  old object but the gradient tensor, and extends the log by evaluations that stop at the
  first failure.
\<close>

lemma run_ok_refl: "run_ok qnode g s None s"
  by (simp add: run_ok_def writes_only_def)

lemma run_ok_weaken: "run_ok qnode g s None s' \<Longrightarrow> run_ok qnode g s err s'"
  by (auto simp add: run_ok_def intro: stops_weaken)

lemma run_ok_trans:
  assumes "run_ok qnode g s None t" and "run_ok qnode g t err u"
  shows "run_ok qnode g s err u"
proof -
  from assms obtain cs ds where
    cs: "calls t = calls s @ cs" "stops_at_failure qnode None cs" and
    ds: "calls u = calls t @ ds" "stops_at_failure qnode err ds"
    by (auto simp add: run_ok_def)
  have "calls u = calls s @ (cs @ ds)" using cs ds by simp
  moreover have "stops_at_failure qnode err (cs @ ds)"
    using cs(2) ds(2) by (rule stops_append)
  moreover have "writes_only g s u"
    using assms by (auto simp add: run_ok_def writes_only_def)
  ultimately show ?thesis unfolding run_ok_def by blast
qed

lemma pst_run_ok:
  assumes "parameter_shift_term qnode p x i j s = (res, s')"
  shows "run_ok qnode g s (failure res) s'"
  using pst_heap [OF assms] pst_trace [OF assms]
  by (auto simp add: run_ok_def writes_only_def)

lemma setitem_run_ok:
  assumes "setitem g i j v s = (res, s')"
  shows "run_ok qnode g s None s'"
  using setitem_frame [OF assms]
  by (auto simp add: run_ok_def writes_only_def)

lemma inner_loop_run_ok:
  "inner_loop w qnode x g i js s = (res, s') \<Longrightarrow> run_ok qnode g s (failure res) s'"
proof (induction js arbitrary: s)
  case Nil
  then show ?case by (auto simp add: run_ok_refl)
next
  case (Cons j js)
  obtain r1 s1 where p: "parameter_shift_term qnode w x (int i) (int j) s = (r1, s1)"
    by (cases "parameter_shift_term qnode w x (int i) (int j) s")
  note ok1 = pst_run_ok [OF p, of g]
  show ?case
  proof (cases r1)
    case (Inl e)
    with Cons.prems p ok1 show ?thesis by auto
  next
    case (Inr v)
    note r1 = this
    obtain r2 s2 where q: "setitem g (int i) (int j) v s1 = (r2 :: 'a error + unit, s2)"
      by (cases "setitem g (int i) (int j) v s1 :: ('a error + unit) \<times> pystate")
    have ok2: "run_ok qnode g s None s2"
      using ok1 r1 setitem_run_ok [OF q] by (auto intro: run_ok_trans)
    show ?thesis
    proof (cases r2)
      case (Inl e)
      with Cons.prems p r1 q have "res = Inl e" "s' = s2" by auto
      with ok2 show ?thesis by (auto intro: run_ok_weaken)
    next
      case (Inr u)
      with Cons.prems p r1 q have "inner_loop w qnode x g i js s2 = (res, s')" by auto
      from Cons.IH [OF this] ok2 show ?thesis by (rule run_ok_trans [rotated])
    qed
  qed
qed

lemma outer_loop_run_ok:
  "outer_loop w qnode x g is s = (res, s') \<Longrightarrow> run_ok qnode g s (failure res) s'"
proof (induction "is" arbitrary: s)
  case Nil
  then show ?case by (auto simp add: run_ok_refl)
next
  case (Cons i "is")
  show ?case
  proof (cases "len_first (heap s ! g) :: 'a error + nat")
    case (Inl e)
    with Cons.prems have "res = Inl e" "s' = s" by auto
    then show ?thesis by (auto intro: run_ok_weaken run_ok_refl)
  next
    case (Inr n)
    note n = this
    obtain r1 s1 where p: "inner_loop w qnode x g i [0..<n] s = (r1, s1)"
      by (cases "inner_loop w qnode x g i [0..<n] s")
    note ok1 = inner_loop_run_ok [OF p]
    show ?thesis
    proof (cases r1)
      case (Inl e)
      with Cons.prems n p ok1 show ?thesis by auto
    next
      case (Inr u)
      with Cons.prems n p have "outer_loop w qnode x g is s1 = (res, s')" by auto
      from Cons.IH [OF this] ok1 Inr show ?thesis by (auto intro: run_ok_trans)
    qed
  qed
qed

lemma parameter_shift_run_ok:
  assumes "parameter_shift w qnode params x s = (res, s')"
  shows "run_ok qnode (length (heap s)) s (failure res) s'"
proof -
  let ?s0 = "s\<lparr>heap := heap s @ [zeros (heap s ! params)]\<rparr>"
  let ?g = "length (heap s)"
  obtain r1 s1 where p: "outer_loop w qnode x ?g [0..<len (heap ?s0 ! ?g)] ?s0 = (r1, s1)"
    by (cases "outer_loop w qnode x ?g [0..<len (heap ?s0 ! ?g)] ?s0")
  have "run_ok qnode ?g s None ?s0"
    by (simp add: run_ok_def writes_only_def nth_append)
  from this outer_loop_run_ok [OF p] have "run_ok qnode ?g s (failure r1) s1"
    by (rule run_ok_trans)
  moreover have "failure res = failure r1 \<and> s' = s1"
    using assms p by (auto simp add: parameter_shift_def zeros_like_def alloc_def split: sum.splits)
  ultimately show ?thesis by simp
qed

subsection \<open>The arguments of the two evaluations of a shift\<close>

lemma pst_calls:
  "\<forall>c\<in>set (new_calls t (snd (parameter_shift_term qnode p x i j t))).
      fst c = x \<and> same_elsewhere (heap t ! p) i j (snd c)"
proof (cases "heap t ! p")
  case (Array1D items)
  then show ?thesis
    by (simp add: parameter_shift_term_def copy_eq iadd_def new_calls_def)
next
  case (Float2D W rows)
  show ?thesis
  proof (cases "norm_index (length rows) i")
    case None
    with Float2D show ?thesis
      by (simp add: parameter_shift_term_def copy_eq iadd_def new_calls_def)
  next
    case (Some i')
    note Si = this
    show ?thesis
    proof (cases "norm_index W j")
      case None
      with Float2D Si show ?thesis
        by (simp add: parameter_shift_term_def copy_eq iadd_def new_calls_def)
    next
      case (Some j')
      have i': "i' < length rows" using Si by (rule norm_index_less)
      show ?thesis
        using Float2D Si Some i'
        by (auto simp add: parameter_shift_term_def copy_eq iadd_def isub_def setitem_def
            call_def Let_def new_calls_def nth_list_update split: sum.splits)
    qed
  qed
next
  case (Int2D W rows)
  show ?thesis
  proof (cases "norm_index (length rows) i")
    case None
    with Int2D show ?thesis
      by (simp add: parameter_shift_term_def copy_eq iadd_def new_calls_def)
  next
    case (Some i')
    note Si = this
    show ?thesis
    proof (cases "norm_index W j")
      case None
      with Int2D Si show ?thesis
        by (simp add: parameter_shift_term_def copy_eq iadd_def new_calls_def)
    next
      case (Some j')
      have i': "i' < length rows" using Si by (rule norm_index_less)
      show ?thesis
        using Int2D Si Some i'
        by (auto simp add: parameter_shift_term_def copy_eq iadd_def isub_def setitem_def
            call_def Let_def new_calls_def nth_list_update split: sum.splits)
    qed
  qed
qed

subsection \<open>Shapes and empty ranges\<close>

lemma zeros_shape: "shape a = shape b \<Longrightarrow> dtype_of a = dtype_of b \<Longrightarrow> zeros a = zeros b"
  by (cases a; cases b) auto

lemma outer_loop_no_columns:
  "(len_first (heap s ! g) :: 'e error + nat) = Inr 0 \<Longrightarrow>
     outer_loop w (qnode :: 'e qnode) x g is s = (Inr (), s)"
  by (induction "is") auto

lemmas run_defs = parameter_shift_def parameter_shift_term_def zeros_like_def copy_def alloc_def
  iadd_def isub_def setitem_def call_def norm_index_def new_calls_def Let_def

subsection \<open>The exceptions a run can end with\<close>

lemma getitem_error: "getitem a i j = Inl e \<Longrightarrow> e = IndexError"
  by (cases a) (auto split: option.splits)

lemma put_error: "put a i j v = Inl e \<Longrightarrow> e = IndexError"
  by (cases a) (auto split: option.splits)

lemma len_first_error: "len_first a = Inl e \<Longrightarrow> from_python e"
  by (induction a rule: len_first.induct) (auto split: if_splits)

lemma setitem_error: "setitem r i j v s = (Inl e, s') \<Longrightarrow> from_python e"
  by (auto simp add: setitem_def split: sum.splits dest: put_error)

lemma iadd_error: "iadd r i j v s = (Inl e, s') \<Longrightarrow> from_python e"
  by (auto simp add: iadd_def split: sum.splits dest: getitem_error setitem_error)

lemma isub_error: "isub r i j v s = (Inl e, s') \<Longrightarrow> from_python e"
  by (auto simp add: isub_def split: sum.splits dest: getitem_error setitem_error)

lemma call_error: "call qnode x r s = (Inl e, s') \<Longrightarrow> from_python e"
  by (auto simp add: call_def Let_def split: sum.splits)

lemma pst_error:
  "parameter_shift_term qnode p x i j s = (Inl e, s') \<Longrightarrow> from_python e"
  by (auto simp add: parameter_shift_term_def split: prod.splits sum.splits
      dest: iadd_error isub_error call_error)

lemma inner_loop_error:
  "inner_loop w qnode x g i js s = (Inl e, s') \<Longrightarrow> from_python e"
  by (induction js arbitrary: s)
    (auto split: prod.splits sum.splits dest: pst_error setitem_error)

lemma outer_loop_error:
  "outer_loop w qnode x g is s = (Inl e, s') \<Longrightarrow> from_python e"
  by (induction "is" arbitrary: s)
    (auto split: prod.splits sum.splits dest: inner_loop_error len_first_error)

lemma parameter_shift_error:
  "parameter_shift w qnode params x s = (Inl e, s') \<Longrightarrow> from_python e"
  by (auto simp add: parameter_shift_def split: prod.splits sum.splits dest: outer_loop_error)

lemma not_rectangular_rows:
  assumes "\<not> rectangular rows"
  shows "array rows = Array1D (map PyList rows) \<and> rows \<noteq> []"
  using assms by (auto simp add: array_def rectangular_def)

subsection \<open>The values a run computes\<close>

text \<open>
  When the indices of the loops stay inside \<^verbatim>\<open>w\<close> and the evaluator returns, a run succeeds:
  it fills the gradient tensor with the shift estimates taken at \<^verbatim>\<open>w\<close>, with two
  evaluations for each entry.
\<close>

lemma entry_shifted_by:
  assumes "well_formed a" and "dtype_of a \<noteq> Int64" and "entry a i j = Some t"
  shows "entry (shifted_by a i j d) i j = Some (t + d)"
proof (cases a)
  case (Array1D items)
  with assms show ?thesis by simp
next
  case (Int2D W rows)
  with assms show ?thesis by simp
next
  case (Float2D W rows)
  with assms obtain i' j' where
    ij: "norm_index (length rows) i = Some i'" "norm_index W j = Some j'"
    by (auto split: option.splits)
  have "i' < length rows" "j' < W" using ij by (auto dest: norm_index_less)
  moreover then have "length (rows ! i') = W"
    using assms(1) Float2D by (simp add: list_all_length)
  ultimately show ?thesis using assms(3) Float2D ij by auto
qed

lemma fold_update_length [simp]: "length (fold (\<lambda>j r. r[j := f j]) js r) = length r"
  by (induction js arbitrary: r) auto

lemma fold_update_nth:
  "k < length r \<Longrightarrow> fold (\<lambda>j r. r[j := f j]) js r ! k = (if k \<in> set js then f k else r ! k)"
  by (induction js arbitrary: r) (auto simp add: nth_list_update)

lemma fold_update_upt:
  "fold (\<lambda>j r. r[j := f j]) [0..<length r] r = map f [0..<length r]"
  by (rule nth_equalityI) (auto simp add: fold_update_nth)

lemma shape_shifted_by [simp]: "shape (shifted_by a i j d) = shape a"
  by (cases a) (auto split: option.splits)

lemma pst_success:
  assumes wf: "well_formed (heap s ! w)"
    and a: "heap s ! w = Float2D Ww wrows"
    and i: "i < length wrows" and j: "j < Ww"
    and total: "\<forall>a. shape a = [length wrows, Ww] \<longrightarrow> (\<exists>v. qnode x a = Inr v)"
  shows "parameter_shift_term qnode w x (int i) (int j) s =
     (Inr (estimate qnode x (heap s ! w) i j),
      s\<lparr>heap := heap s @ [shifted_by (heap s ! w) (int i) (int j) (- (pi / 2))],
        calls := calls s @ [(x, shifted_by (heap s ! w) (int i) (int j) (pi / 2)),
                            (x, shifted_by (heap s ! w) (int i) (int j) (- (pi / 2)))]\<rparr>)"
proof -
  have sh: "shape (shifted_by (heap s ! w) (int i) (int j) d) = [length wrows, Ww]" for d
    using a by simp
  obtain f where f: "qnode x (shifted_by (heap s ! w) (int i) (int j) (pi / 2)) = Inr f"
    using total sh by blast
  obtain b where b: "qnode x (shifted_by (heap s ! w) (int i) (int j) (- (pi / 2))) = Inr b"
    using total sh by blast
  have g: "getitem (heap s ! w) (int i) (int j) = Inr (wrows ! i ! j)"
    using a i j by simp
  have fl: "dtype_of (heap s ! w) \<noteq> Int64" using a by simp
  show ?thesis
    by (simp add: parameter_shift_term_eq [OF wf fl] g f b estimate_def)
qed

lemma inner_loop_success:
  fixes qnode :: "'e qnode"
  assumes total: "\<forall>a. shape a = [length wrows, Ww] \<longrightarrow> (\<exists>v. qnode x a = Inr v)"
    and refs: "w < length (heap s)" "g < length (heap s)" "w \<noteq> g"
    and a: "heap s ! w = Float2D Ww wrows" "list_all (\<lambda>r. length r = Ww) wrows"
    and gr: "heap s ! g = Float2D W G"
    and i: "i < length wrows" "i < length G"
    and js: "\<forall>j\<in>set js. j < W \<and> j < Ww"
  shows "\<exists>s'. inner_loop w qnode x g i js s = (Inr (), s')
           \<and> length (heap s) \<le> length (heap s')
           \<and> heap s' ! w = heap s ! w
           \<and> heap s' ! g = Float2D W (G[i := fold (\<lambda>j r. r[j := estimate qnode x (heap s ! w) i j]) js (G ! i)])
           \<and> length (calls s') = length (calls s) + 2 * length js"
  using refs a gr i js
proof (induction js arbitrary: s G)
  case Nil
  then show ?case by simp
next
  case (Cons j js)
  let ?A = "heap s ! w"
  let ?v = "estimate qnode x ?A i j"
  let ?s1 = "s\<lparr>heap := heap s @ [shifted_by ?A (int i) (int j) (- (pi / 2))],
        calls := calls s @ [(x, shifted_by ?A (int i) (int j) (pi / 2)),
                            (x, shifted_by ?A (int i) (int j) (- (pi / 2)))]\<rparr>"
  let ?G' = "G[i := (G ! i)[j := ?v]]"
  let ?s2 = "?s1\<lparr>heap := (heap ?s1)[g := Float2D W ?G']\<rparr>"
  have j: "j < W" "j < Ww" using Cons.prems by auto
  have wf: "well_formed (heap s ! w)" using Cons.prems by simp
  have p: "parameter_shift_term qnode w x (int i) (int j) s = (Inr ?v, ?s1)"
    by (rule pst_success [where qnode = qnode and x = x,
          OF wf \<open>heap s ! w = Float2D Ww wrows\<close> \<open>i < length wrows\<close> j(2) total])
  have g1: "heap ?s1 ! g = Float2D W G"
    using Cons.prems by (simp add: nth_append)
  have q: "(setitem g (int i) (int j) ?v ?s1 :: ('e error + unit) \<times> pystate) = (Inr (), ?s2)"
    using g1 \<open>i < length G\<close> j(1) by (simp add: setitem_def)
  have step: "inner_loop w qnode x g i (j # js) s = inner_loop w qnode x g i js ?s2"
    using p q by simp
  have w2: "heap ?s2 ! w = ?A" using Cons.prems by (simp add: nth_append)
  have g2: "heap ?s2 ! g = Float2D W ?G'" using Cons.prems by (simp add: nth_append)
  have "\<exists>s'. inner_loop w qnode x g i js ?s2 = (Inr (), s')
           \<and> length (heap ?s2) \<le> length (heap s')
           \<and> heap s' ! w = heap ?s2 ! w
           \<and> heap s' ! g = Float2D W (?G'[i := fold (\<lambda>j r. r[j := estimate qnode x (heap ?s2 ! w) i j]) js (?G' ! i)])
           \<and> length (calls s') = length (calls ?s2) + 2 * length js"
  proof (rule Cons.IH)
    show "w < length (heap ?s2)" "g < length (heap ?s2)" using Cons.prems by simp_all
    show "w \<noteq> g" by fact
    show "heap ?s2 ! w = Float2D Ww wrows" using w2 Cons.prems by simp
    show "list_all (\<lambda>r. length r = Ww) wrows" by fact
    show "heap ?s2 ! g = Float2D W ?G'" by (rule g2)
    show "i < length wrows" by fact
    show "i < length ?G'" using Cons.prems by simp
    show "\<forall>j\<in>set js. j < W \<and> j < Ww" using Cons.prems by simp
  qed
  then obtain s' where r: "inner_loop w qnode x g i js ?s2 = (Inr (), s')"
    and l: "length (heap ?s2) \<le> length (heap s')"
    and w': "heap s' ! w = heap ?s2 ! w"
    and g': "heap s' ! g = Float2D W (?G'[i := fold (\<lambda>j r. r[j := estimate qnode x (heap ?s2 ! w) i j]) js (?G' ! i)])"
    and c: "length (calls s') = length (calls ?s2) + 2 * length js"
    by blast
  have "heap s' ! g = Float2D W (G[i := fold (\<lambda>j r. r[j := estimate qnode x ?A i j]) (j # js) (G ! i)])"
    using g' w2 \<open>i < length G\<close> by simp
  moreover have "length (calls s') = length (calls s) + 2 * length (j # js)"
    using c by simp
  moreover have "length (heap s) \<le> length (heap s')" using l by simp
  moreover have "heap s' ! w = ?A" using w' w2 by simp
  ultimately show ?case using step r by simp
qed

lemma outer_loop_success:
  fixes qnode :: "'e qnode"
  assumes total: "\<forall>a. shape a = [length wrows, Ww] \<longrightarrow> (\<exists>v. qnode x a = Inr v)"
    and refs: "w < length (heap s)" "g < length (heap s)" "w \<noteq> g"
    and a: "heap s ! w = Float2D Ww wrows" "list_all (\<lambda>r. length r = Ww) wrows"
    and gr: "heap s ! g = Float2D W G" "list_all (\<lambda>r. length r = W) G"
    and W: "W \<le> Ww"
    and "is": "\<forall>i\<in>set is. i < length G \<and> i < length wrows"
  shows "\<exists>s'. outer_loop w qnode x g is s = (Inr (), s')
           \<and> length (heap s) \<le> length (heap s')
           \<and> heap s' ! w = heap s ! w
           \<and> heap s' ! g = Float2D W
                (fold (\<lambda>i G. G[i := map (estimate qnode x (heap s ! w) i) [0..<W]]) is G)
           \<and> length (calls s') = length (calls s) + 2 * W * length is"
  using refs a gr "is"
proof (induction "is" arbitrary: s G)
  case Nil
  then show ?case by simp
next
  case (Cons i "is")
  let ?A = "heap s ! w"
  let ?row = "map (estimate qnode x ?A i) [0..<W]"
  have i: "i < length G" "i < length wrows" using Cons.prems by auto
  have lf: "(len_first (heap s ! g) :: 'e error + nat) = Inr W"
    using Cons.prems i by auto
  have len: "length (G ! i) = W"
    using Cons.prems i by (simp add: list_all_length)
  have js: "\<forall>j\<in>set [0..<W]. j < W \<and> j < Ww" using W by auto
  from inner_loop_success [where qnode = qnode and x = x, OF total
      \<open>w < length (heap s)\<close> \<open>g < length (heap s)\<close> \<open>w \<noteq> g\<close>
      \<open>heap s ! w = Float2D Ww wrows\<close> \<open>list_all (\<lambda>r. length r = Ww) wrows\<close>
      \<open>heap s ! g = Float2D W G\<close> i(2) i(1) js]
  obtain s1 where r1: "inner_loop w qnode x g i [0..<W] s = (Inr (), s1)"
    and l1: "length (heap s) \<le> length (heap s1)"
    and w1: "heap s1 ! w = ?A"
    and g1: "heap s1 ! g = Float2D W
               (G[i := fold (\<lambda>j r. r[j := estimate qnode x ?A i j]) [0..<W] (G ! i)])"
    and c1: "length (calls s1) = length (calls s) + 2 * length [0..<W]"
    by blast
  have "fold (\<lambda>j r. r[j := estimate qnode x ?A i j]) [0..<length (G ! i)] (G ! i)
          = map (estimate qnode x ?A i) [0..<length (G ! i)]"
    by (rule fold_update_upt)
  with len g1 have g1': "heap s1 ! g = Float2D W (G[i := ?row])" by simp
  have step: "outer_loop w qnode x g (i # is) s = outer_loop w qnode x g is s1"
    using lf r1 by simp
  have wfG: "list_all (\<lambda>r. length r = W) (G[i := ?row])"
    using Cons.prems by (auto simp add: list_all_length nth_list_update)
  have "\<exists>s'. outer_loop w qnode x g is s1 = (Inr (), s')
           \<and> length (heap s1) \<le> length (heap s')
           \<and> heap s' ! w = heap s1 ! w
           \<and> heap s' ! g = Float2D W
                (fold (\<lambda>i G. G[i := map (estimate qnode x (heap s1 ! w) i) [0..<W]]) is (G[i := ?row]))
           \<and> length (calls s') = length (calls s1) + 2 * W * length is"
  proof (rule Cons.IH)
    show "w < length (heap s1)" "g < length (heap s1)" using Cons.prems l1 by simp_all
    show "w \<noteq> g" by fact
    show "heap s1 ! w = Float2D Ww wrows" using w1 Cons.prems by simp
    show "list_all (\<lambda>r. length r = Ww) wrows" by fact
    show "heap s1 ! g = Float2D W (G[i := ?row])" by (rule g1')
    show "list_all (\<lambda>r. length r = W) (G[i := ?row])" by (rule wfG)
    show "\<forall>k\<in>set is. k < length (G[i := ?row]) \<and> k < length wrows"
      using Cons.prems by simp
  qed
  then obtain s' where r: "outer_loop w qnode x g is s1 = (Inr (), s')"
    and l: "length (heap s1) \<le> length (heap s')"
    and w': "heap s' ! w = heap s1 ! w"
    and g': "heap s' ! g = Float2D W
                (fold (\<lambda>i G. G[i := map (estimate qnode x (heap s1 ! w) i) [0..<W]]) is (G[i := ?row]))"
    and c: "length (calls s') = length (calls s1) + 2 * W * length is"
    by blast
  have "heap s' ! g = Float2D W
          (fold (\<lambda>i G. G[i := map (estimate qnode x ?A i) [0..<W]]) (i # is) G)"
    using g' w1 by simp
  moreover have "length (calls s') = length (calls s) + 2 * W * length (i # is)"
    using c c1 by simp
  moreover have "length (heap s) \<le> length (heap s')" using l l1 by simp
  moreover have "heap s' ! w = ?A" using w' w1 by simp
  ultimately show ?case using step r by simp
qed

lemma parameter_shift_value:
  fixes qnode :: "'e qnode"
  assumes total: "\<forall>a. shape a = [length wrows, Ww] \<longrightarrow> (\<exists>v. qnode x a = Inr v)"
    and w: "w < length (heap s)" "heap s ! w = Float2D Ww wrows" "well_formed (heap s ! w)"
    and p: "heap s ! params = Float2D W rows"
    and fits: "length rows \<le> length wrows" "W \<le> Ww"
  shows "\<exists>s'. parameter_shift w qnode params x s = (Inr (length (heap s)), s')
           \<and> heap s' ! length (heap s) = Float2D W
                (map (\<lambda>i. map (estimate qnode x (heap s ! w) i) [0..<W]) [0..<length rows])
           \<and> length (new_calls s s') = 2 * length rows * W"
proof -
  let ?g = "length (heap s)"
  let ?G = "replicate (length rows) (replicate W (0::real))"
  let ?s0 = "s\<lparr>heap := heap s @ [Float2D W ?G]\<rparr>"
  let ?F = "\<lambda>i. map (estimate qnode x (heap s ! w) i) [0..<W]"
  have w0: "heap ?s0 ! w = Float2D Ww wrows" using w by (simp add: nth_append)
  have "\<exists>s'. outer_loop w qnode x ?g [0..<length rows] ?s0 = (Inr (), s')
           \<and> length (heap ?s0) \<le> length (heap s')
           \<and> heap s' ! w = heap ?s0 ! w
           \<and> heap s' ! ?g = Float2D W
                (fold (\<lambda>i G. G[i := map (estimate qnode x (heap ?s0 ! w) i) [0..<W]]) [0..<length rows] ?G)
           \<and> length (calls s') = length (calls ?s0) + 2 * W * length [0..<length rows]"
  proof (rule outer_loop_success [where qnode = qnode and x = x and Ww = Ww and wrows = wrows])
    show "\<forall>a. shape a = [length wrows, Ww] \<longrightarrow> (\<exists>v. qnode x a = Inr v)" by (rule total)
    show "w < length (heap ?s0)" "?g < length (heap ?s0)" "w \<noteq> ?g" using w by simp_all
    show "heap ?s0 ! w = Float2D Ww wrows" by (rule w0)
    show "list_all (\<lambda>r. length r = Ww) wrows" using w by simp
    show "heap ?s0 ! ?g = Float2D W ?G" by simp
    show "list_all (\<lambda>r. length r = W) ?G" by (simp add: list_all_length)
    show "W \<le> Ww" by fact
    show "\<forall>i\<in>set [0..<length rows]. i < length ?G \<and> i < length wrows"
      using fits by auto
  qed
  then obtain s' where r: "outer_loop w qnode x ?g [0..<length rows] ?s0 = (Inr (), s')"
    and g': "heap s' ! ?g = Float2D W
                (fold (\<lambda>i G. G[i := map (estimate qnode x (heap ?s0 ! w) i) [0..<W]]) [0..<length rows] ?G)"
    and c: "length (calls s') = length (calls ?s0) + 2 * W * length [0..<length rows]"
    by blast
  have "fold (\<lambda>i G. G[i := ?F i]) [0..<length ?G] ?G = map ?F [0..<length ?G]"
    by (rule fold_update_upt)
  then have F: "fold (\<lambda>i G. G[i := ?F i]) [0..<length rows] ?G = map ?F [0..<length rows]"
    by simp
  have "parameter_shift w qnode params x s = (Inr ?g, s')"
    using p r by (simp add: parameter_shift_def zeros_like_def alloc_def)
  moreover have "heap s' ! ?g = Float2D W (map ?F [0..<length rows])"
    using g' w0 w F by simp
  moreover have "length (new_calls s s') = 2 * length rows * W"
    using c by (simp add: new_calls_def)
  ultimately show ?thesis by blast
qed

subsection \<open>Every evaluation of a run is on a copy of the module-level tensor\<close>

lemma new_calls_append:
  assumes "calls t = calls s @ cs" and "calls u = calls t @ ds"
  shows "new_calls s u = new_calls s t @ new_calls t u"
  using assms by (simp add: new_calls_def)

lemma run_ok_calls: "run_ok qnode g s err s' \<Longrightarrow> \<exists>cs. calls s' = calls s @ cs"
  by (auto simp add: run_ok_def)

lemma inner_loop_copies:
  assumes "inner_loop w qnode x g i js s = (res, s')"
    and "w < length (heap s)" and "w \<noteq> g"
  shows "shifted_copies (heap s ! w) x (new_calls s s')"
  using assms
proof (induction js arbitrary: s)
  case Nil
  then show ?case by (simp add: shifted_copies_def new_calls_def)
next
  case (Cons j js)
  obtain r1 s1 where p: "parameter_shift_term qnode w x (int i) (int j) s = (r1, s1)"
    by (cases "parameter_shift_term qnode w x (int i) (int j) s")
  have c1: "shifted_copies (heap s ! w) x (new_calls s s1)"
    using pst_calls [of s qnode w x "int i" "int j"] p
    by (auto simp add: shifted_copies_def)
  from pst_trace [OF p] obtain cs where cs: "calls s1 = calls s @ cs" by blast
  from pst_heap [OF p] Cons.prems(2)
  have h1: "length (heap s1) = Suc (length (heap s))" "heap s1 ! w = heap s ! w" by auto
  show ?case
  proof (cases r1)
    case (Inl e)
    with Cons.prems(1) p have "s' = s1" by auto
    with c1 show ?thesis by simp
  next
    case (Inr v)
    note r1 = this
    obtain r2 s2 where q: "setitem g (int i) (int j) v s1 = (r2 :: 'a error + unit, s2)"
      by (cases "setitem g (int i) (int j) v s1 :: ('a error + unit) \<times> pystate")
    from setitem_frame [OF q] \<open>w \<noteq> g\<close>
    have h2: "calls s2 = calls s1" "length (heap s2) = length (heap s1)"
      "heap s2 ! w = heap s1 ! w" by auto
    have c2: "shifted_copies (heap s ! w) x (new_calls s s2)"
      using c1 h2(1) by (simp add: new_calls_def)
    show ?thesis
    proof (cases r2)
      case (Inl e)
      with Cons.prems(1) p r1 q have "s' = s2" by auto
      with c2 show ?thesis by simp
    next
      case (Inr u)
      with Cons.prems(1) p r1 q have rest: "inner_loop w qnode x g i js s2 = (res, s')" by auto
      have "shifted_copies (heap s2 ! w) x (new_calls s2 s')"
        using rest h1 h2 \<open>w \<noteq> g\<close> \<open>w < length (heap s)\<close> by (intro Cons.IH) auto
      then have c3: "shifted_copies (heap s ! w) x (new_calls s2 s')"
        using h1 h2 by simp
      from inner_loop_run_ok [OF rest] obtain ds where "calls s' = calls s2 @ ds"
        by (auto dest: run_ok_calls)
      moreover have "calls s2 = calls s @ cs" using cs h2 by simp
      ultimately have "new_calls s s' = new_calls s s2 @ new_calls s2 s'"
        by (rule new_calls_append [rotated])
      with c2 c3 show ?thesis by (auto simp add: shifted_copies_def)
    qed
  qed
qed

lemma outer_loop_copies:
  assumes "outer_loop w qnode x g is s = (res, s')"
    and "w < length (heap s)" and "w \<noteq> g"
  shows "shifted_copies (heap s ! w) x (new_calls s s')"
  using assms
proof (induction "is" arbitrary: s)
  case Nil
  then show ?case by (simp add: shifted_copies_def new_calls_def)
next
  case (Cons i "is")
  show ?case
  proof (cases "len_first (heap s ! g) :: 'a error + nat")
    case (Inl e)
    with Cons.prems(1) have "s' = s" by auto
    then show ?thesis by (simp add: shifted_copies_def new_calls_def)
  next
    case (Inr n)
    note n = this
    obtain r1 s1 where p: "inner_loop w qnode x g i [0..<n] s = (r1, s1)"
      by (cases "inner_loop w qnode x g i [0..<n] s")
    have c1: "shifted_copies (heap s ! w) x (new_calls s s1)"
      using p Cons.prems(2,3) by (rule inner_loop_copies)
    from inner_loop_run_ok [OF p] Cons.prems(2,3)
    have h1: "length (heap s) \<le> length (heap s1)" "heap s1 ! w = heap s ! w"
      and "\<exists>cs. calls s1 = calls s @ cs"
      by (auto simp add: run_ok_def writes_only_def)
    then obtain cs where cs: "calls s1 = calls s @ cs" by blast
    show ?thesis
    proof (cases r1)
      case (Inl e)
      with Cons.prems(1) n p have "s' = s1" by auto
      with c1 show ?thesis by simp
    next
      case (Inr u)
      with Cons.prems(1) n p have rest: "outer_loop w qnode x g is s1 = (res, s')" by auto
      have "shifted_copies (heap s1 ! w) x (new_calls s1 s')"
        using rest h1 Cons.prems(2,3) by (intro Cons.IH) auto
      then have c3: "shifted_copies (heap s ! w) x (new_calls s1 s')"
        using h1 by simp
      from outer_loop_run_ok [OF rest] obtain ds where "calls s' = calls s1 @ ds"
        by (auto dest: run_ok_calls)
      with cs have "new_calls s s' = new_calls s s1 @ new_calls s1 s'"
        by (rule new_calls_append)
      with c1 c3 show ?thesis by (auto simp add: shifted_copies_def)
    qed
  qed
qed

lemma parameter_shift_copies:
  assumes "w < length (heap s)"
  shows "shifted_copies (heap s ! w) x (new_calls s (snd (parameter_shift w qnode params x s)))"
proof -
  let ?s0 = "s\<lparr>heap := heap s @ [zeros (heap s ! params)]\<rparr>"
  let ?g = "length (heap s)"
  obtain r1 s1 where p: "outer_loop w qnode x ?g [0..<len (heap ?s0 ! ?g)] ?s0 = (r1, s1)"
    by (cases "outer_loop w qnode x ?g [0..<len (heap ?s0 ! ?g)] ?s0")
  have "shifted_copies (heap ?s0 ! w) x (new_calls ?s0 s1)"
    using p assms by (intro outer_loop_copies) auto
  then have "shifted_copies (heap s ! w) x (new_calls s s1)"
    using assms by (simp add: nth_append new_calls_def)
  moreover have "snd (parameter_shift w qnode params x s) = s1"
    using p by (auto simp add: parameter_shift_def zeros_like_def alloc_def split: sum.splits)
  ultimately show ?thesis by simp
qed

subsection \<open>The example evaluators\<close>

lemma trunc_pi_half: "trunc (pi / 2) = 1"
proof -
  have "1 \<le> pi / 2" using pi_ge_two by simp
  moreover have "pi / 2 < 2" by (rule pi_half_less_two)
  ultimately have "\<lfloor>pi / 2\<rfloor> = 1" by (simp add: floor_eq_iff)
  then show ?thesis by (simp add: trunc_def)
qed

lemma square_estimate:
  "estimate square_qnode notebook_x notebook_w 0 0 = - (21 / 10) * pi"
  by (simp add: estimate_def square_qnode_def notebook_w_def norm_index_def algebra_simps)

lemma square_total:
  "\<forall>a. shape a = [3, 2] \<longrightarrow> (\<exists>v. square_qnode notebook_x a = Inr v)"
proof (intro allI impI)
  fix a assume "shape a = [3, 2]"
  then show "\<exists>v. square_qnode notebook_x a = Inr v"
    by (cases a) (auto simp add: square_qnode_def norm_index_def)
qed

section \<open>The cost model\<close>

text \<open>
  C4. For all non-negative integers \<open>n_params\<close> and \<open>n_steps\<close> (the natural numbers),
  \<open>num_evals\<close> returns exactly \<open>2 * n_params * n_steps\<close>; it returns 0 when either
  argument is 0, and \<open>num_evals 13 13\<close> is 338.
\<close>

theorem num_evals_count:
  "num_evals (int n) (int k) = Inr (int (2 * n * k))
   \<and> num_evals 0 (int k) = Inr 0
   \<and> num_evals (int k) 0 = Inr 0
   \<and> num_evals 13 13 = Inr 338"
  by (simp add: num_evals_def)

text \<open>
  C5, as the specification has it: a negative argument makes \<open>num_evals\<close> fail with a
  ValueError. It does not: with 13 parameters and \<open>-1\<close> steps the function returns \<open>-26\<close>.
\<close>

theorem num_evals_negative_counterexample:
  "num_evals 13 (- 1) = Inr (- 26) \<and> num_evals 13 (- 1) \<noteq> Inl ValueError"
  by (simp add: num_evals_def)

text \<open>
  C5, amended: \<open>num_evals\<close> validates nothing and has no failure mode at all. For all
  integers, negative ones included, it returns \<open>2 * n_params * n_steps\<close>, which is negative
  exactly when the two arguments have opposite signs.
\<close>

theorem num_evals_total:
  "num_evals n k = Inr (2 * n * k)
   \<and> (\<forall>e. num_evals n k \<noteq> Inl e)
   \<and> (2 * n * k < 0 \<longleftrightarrow> (n < 0 \<and> 0 < k) \<or> (0 < n \<and> k < 0))"
  by (auto simp add: num_evals_def mult_less_0_iff)

section \<open>The single-entry shift\<close>

text \<open>
  The identity behind the rule, in exact arithmetic: for the evaluator \<open>cos (p[i, j])\<close> the
  value \<open>0.5 * (cos (\<theta> + \<pi>/2) - cos (\<theta> - \<pi>/2))\<close> that \<open>parameter_shift_term\<close> computes is
  \<open>- sin \<theta>\<close>, the derivative of the cosine at \<open>\<theta>\<close>. This is a statement about real numbers
  only. The code adds, subtracts and takes cosines in \<^verbatim>\<open>float64\<close>, which this model does not
  describe, so the lemma says nothing about the digits the code returns.
\<close>

lemma cosine_shift_exact:
  assumes "well_formed (heap s ! p)" and "dtype_of (heap s ! p) \<noteq> Int64"
    and "entry (heap s ! p) i j = Some \<theta>"
  shows "fst (parameter_shift_term (cos_qnode i j) p x i j s) = Inr (- sin \<theta>)
         \<and> (\<theta> = 0 \<longrightarrow> fst (parameter_shift_term (cos_qnode i j) p x i j s) = Inr 0)
         \<and> (\<theta> = pi / 2 \<longrightarrow> fst (parameter_shift_term (cos_qnode i j) p x i j s) = Inr (- 1))
         \<and> (cos has_real_derivative - sin \<theta>) (at \<theta>)"
proof -
  have up: "cos_qnode i j x (shifted_by (heap s ! p) i j (pi / 2)) = Inr (cos (\<theta> + pi / 2))"
    by (simp add: cos_qnode_def getitem_def entry_shifted_by [OF assms])
  have down: "cos_qnode i j x (shifted_by (heap s ! p) i j (- (pi / 2))) = Inr (cos (\<theta> - pi / 2))"
    by (simp add: cos_qnode_def getitem_def entry_shifted_by [OF assms, of "- (pi / 2)"])
  have "fst (parameter_shift_term (cos_qnode i j) p x i j s)
          = Inr (0.5 * (cos (\<theta> + pi / 2) - cos (\<theta> - pi / 2)))"
    using assms(3) up down by (simp add: parameter_shift_term_eq [OF assms(1,2)] getitem_def)
  also have "0.5 * (cos (\<theta> + pi / 2) - cos (\<theta> - pi / 2)) = - sin \<theta>"
    by (simp add: cos_add cos_diff)
  finally have main: "fst (parameter_shift_term (cos_qnode i j) p x i j s) = Inr (- sin \<theta>)" .
  have zero: "\<theta> = 0 \<longrightarrow> - sin \<theta> = 0" by simp
  have half: "\<theta> = pi / 2 \<longrightarrow> - sin \<theta> = - 1"
  proof
    assume "\<theta> = pi / 2"
    then show "- sin \<theta> = - 1" by (simp only: sin_pi_half)
  qed
  have deriv: "(cos has_real_derivative - sin \<theta>) (at \<theta>)" by (rule DERIV_cos)
  from zero half deriv show ?thesis unfolding main by blast
qed

text \<open>
  Neither function changes an array that existed before the call: after \<open>parameter_shift\<close>
  (and after \<open>parameter_shift_term\<close>) every object of the store is what it was, the caller's
  tensor and \<^verbatim>\<open>w\<close> included; all writes go to objects the call allocated itself. Both
  evaluations of a shift receive the data vector and a working copy that agrees with the
  tensor handed to \<open>parameter_shift_term\<close> at every position other than \<open>(i, j)\<close>. In
  \<open>parameter_shift\<close> that tensor is \<^verbatim>\<open>w\<close>.
\<close>

lemma old_arrays_unchanged:
  "(\<forall>a<length (heap s). heap (snd (parameter_shift w qnode params x s)) ! a = heap s ! a)
   \<and> (w < length (heap s) \<longrightarrow>
        shifted_copies (heap s ! w) x (new_calls s (snd (parameter_shift w qnode params x s))))
   \<and> (\<forall>a<length (heap t). heap (snd (parameter_shift_term qnode p x i j t)) ! a = heap t ! a)
   \<and> (\<forall>c\<in>set (new_calls t (snd (parameter_shift_term qnode p x i j t))).
         fst c = x \<and> same_elsewhere (heap t ! p) i j (snd c))"
proof (intro conjI)
  obtain res s' where r: "parameter_shift w qnode params x s = (res, s')"
    by (cases "parameter_shift w qnode params x s")
  from parameter_shift_run_ok [OF r]
  show "\<forall>a<length (heap s). heap (snd (parameter_shift w qnode params x s)) ! a = heap s ! a"
    using r by (simp add: run_ok_def writes_only_def)
next
  show "w < length (heap s) \<longrightarrow>
        shifted_copies (heap s ! w) x (new_calls s (snd (parameter_shift w qnode params x s)))"
    by (simp add: parameter_shift_copies)
next
  obtain v t' where r: "parameter_shift_term qnode p x i j t = (v, t')"
    by (cases "parameter_shift_term qnode p x i j t")
  from pst_heap [OF r]
  show "\<forall>a<length (heap t). heap (snd (parameter_shift_term qnode p x i j t)) ! a = heap t ! a"
    using r by simp
next
  show "\<forall>c\<in>set (new_calls t (snd (parameter_shift_term qnode p x i j t))).
         fst c = x \<and> same_elsewhere (heap t ! p) i j (snd c)"
    by (rule pst_calls)
qed

text \<open>
  C3, evaluated where it fails. The claim: the caller's tensor is unchanged after the call,
  and during the shift of the entry \<open>(i, j)\<close> the working copy has the caller's entry at every
  other position. With the notebook's \<^verbatim>\<open>w\<close> in place and a tensor of zeros of the same shape
  \<open>(3, 2)\<close> as \<open>params\<close>, the caller's tensor is indeed unchanged, but the first evaluation,
  for the shift of \<open>(0, 0)\<close>, receives a copy of \<^verbatim>\<open>w\<close>: its entry at \<open>(0, 1)\<close> is 1.2 where
  the caller's is 0.
\<close>

theorem working_copy_is_not_of_params:
  "heap (snd (parameter_shift 0 zero_qnode 1 notebook_x
      \<lparr>heap = [notebook_w, Float2D 2 [[0, 0], [0, 0], [0, 0]]], calls = []\<rparr>)) ! 1
     = Float2D 2 [[0, 0], [0, 0], [0, 0]]
   \<and> hd (calls (snd (parameter_shift 0 zero_qnode 1 notebook_x
      \<lparr>heap = [notebook_w, Float2D 2 [[0, 0], [0, 0], [0, 0]]], calls = []\<rparr>)))
     = (notebook_x,
        Float2D 2 [[- 21 / 10 + pi / 2, 12 / 10], [- 14 / 10, - 39 / 10], [5 / 10, 2 / 10]])
   \<and> entry (Float2D 2 [[- 21 / 10 + pi / 2, 12 / 10], [- 14 / 10, - 39 / 10], [5 / 10, 2 / 10]])
         0 1 = Some (12 / 10)
   \<and> entry (Float2D 2 [[0, 0], [0, 0], [0, 0]]) 0 1 = Some 0
   \<and> \<not> same_elsewhere (Float2D 2 [[0, 0], [0, 0], [0, 0]]) 0 0
         (Float2D 2 [[- 21 / 10 + pi / 2, 12 / 10], [- 14 / 10, - 39 / 10], [5 / 10, 2 / 10]])"
proof (intro conjI)
  show "heap (snd (parameter_shift 0 zero_qnode 1 notebook_x
      \<lparr>heap = [notebook_w, Float2D 2 [[0, 0], [0, 0], [0, 0]]], calls = []\<rparr>)) ! 1
     = Float2D 2 [[0, 0], [0, 0], [0, 0]]"
    by (simp add: run_defs notebook_w_def zero_qnode_def upt_rec)
next
  show "hd (calls (snd (parameter_shift 0 zero_qnode 1 notebook_x
      \<lparr>heap = [notebook_w, Float2D 2 [[0, 0], [0, 0], [0, 0]]], calls = []\<rparr>)))
     = (notebook_x,
        Float2D 2 [[- 21 / 10 + pi / 2, 12 / 10], [- 14 / 10, - 39 / 10], [5 / 10, 2 / 10]])"
    by (simp add: run_defs notebook_w_def zero_qnode_def upt_rec)
next
  show "entry (Float2D 2 [[- 21 / 10 + pi / 2, 12 / 10], [- 14 / 10, - 39 / 10], [5 / 10, 2 / 10]])
         0 1 = Some (12 / 10)"
    by (simp add: norm_index_def)
next
  show "entry (Float2D 2 [[0, 0], [0, 0], [0, 0]]) 0 1 = Some 0"
    by (simp add: norm_index_def)
next
  let ?Z = "[[0, 0], [0, 0], [0, 0 :: real]]"
  let ?B = "[[- 21 / 10 + pi / 2, 12 / 10], [- 14 / 10, - 39 / 10], [5 / 10, 2 / 10 :: real]]"
  show "\<not> same_elsewhere (Float2D 2 ?Z) 0 0 (Float2D 2 ?B)"
  proof
    assume "same_elsewhere (Float2D 2 ?Z) 0 0 (Float2D 2 ?B)"
    then have every: "\<forall>i'\<in>{..<length ?Z}. \<forall>j'\<in>{..<2}.
        ?B ! i' ! j' = ?Z ! i' ! j'
        \<or> (norm_index (length ?Z) 0 = Some i' \<and> norm_index 2 0 = Some j')"
      unfolding same_elsewhere.simps by blast
    have i: "(0::nat) \<in> {..<length ?Z}" and j: "(1::nat) \<in> {..<2}" by simp_all
    from bspec [OF bspec [OF every i] j]
    show False by (simp add: norm_index_def)
  qed
qed

section \<open>The gradient loop\<close>

text \<open>
  C1, evaluated where it fails. The claim: entry \<open>(i, j)\<close> of the result is the shift
  estimate taken at the caller's \<open>params\<close>. With the notebook's \<^verbatim>\<open>w\<close> in place, the one-entry
  tensor \<open>[[0]]\<close> as \<open>params\<close> and the evaluator \<open>p[0, 0]\<^sup>2\<close>, the estimate at \<open>params\<close> is
  \<open>0.5 * ((\<pi>/2)\<^sup>2 - (\<pi>/2)\<^sup>2) = 0\<close>; the function returns \<open>[[-2.1 * \<pi>]]\<close>, the estimate at
  \<^verbatim>\<open>w\<close>, and both logged evaluations are on shifted copies of \<^verbatim>\<open>w\<close>.
\<close>

theorem gradient_taken_at_w:
  "parameter_shift 0 square_qnode 1 notebook_x
       \<lparr>heap = [notebook_w, Float2D 1 [[0]]], calls = []\<rparr>
     = (Inr 2,
        \<lparr>heap = [notebook_w, Float2D 1 [[0]], Float2D 1 [[- (21 / 10) * pi]],
                 Float2D 2 [[- 21 / 10 + pi / 2 - pi, 12 / 10], [- 14 / 10, - 39 / 10],
                            [5 / 10, 2 / 10]]],
          calls = [(notebook_x, Float2D 2 [[- 21 / 10 + pi / 2, 12 / 10], [- 14 / 10, - 39 / 10],
                                           [5 / 10, 2 / 10]]),
                   (notebook_x, Float2D 2 [[- 21 / 10 + pi / 2 - pi, 12 / 10],
                                           [- 14 / 10, - 39 / 10], [5 / 10, 2 / 10]])]\<rparr>)
   \<and> square_qnode notebook_x (shifted_by (Float2D 1 [[0]]) 0 0 (pi / 2))
       = Inr (pi / 2 * (pi / 2))
   \<and> square_qnode notebook_x (shifted_by (Float2D 1 [[0]]) 0 0 (- (pi / 2)))
       = Inr (pi / 2 * (pi / 2))
   \<and> - (21 / 10) * pi \<noteq> 0.5 * (pi / 2 * (pi / 2) - pi / 2 * (pi / 2))"
proof (intro conjI)
  show "parameter_shift 0 square_qnode 1 notebook_x
       \<lparr>heap = [notebook_w, Float2D 1 [[0]]], calls = []\<rparr>
     = (Inr 2,
        \<lparr>heap = [notebook_w, Float2D 1 [[0]], Float2D 1 [[- (21 / 10) * pi]],
                 Float2D 2 [[- 21 / 10 + pi / 2 - pi, 12 / 10], [- 14 / 10, - 39 / 10],
                            [5 / 10, 2 / 10]]],
          calls = [(notebook_x, Float2D 2 [[- 21 / 10 + pi / 2, 12 / 10], [- 14 / 10, - 39 / 10],
                                           [5 / 10, 2 / 10]]),
                   (notebook_x, Float2D 2 [[- 21 / 10 + pi / 2 - pi, 12 / 10],
                                           [- 14 / 10, - 39 / 10], [5 / 10, 2 / 10]])]\<rparr>)"
    apply (simp add: run_defs notebook_w_def square_qnode_def upt_rec)
    apply (simp add: algebra_simps)
    done
next
  show "square_qnode notebook_x (shifted_by (Float2D 1 [[0]]) 0 0 (pi / 2))
       = Inr (pi / 2 * (pi / 2))"
    by (simp add: square_qnode_def norm_index_def)
next
  show "square_qnode notebook_x (shifted_by (Float2D 1 [[0]]) 0 0 (- (pi / 2)))
       = Inr (pi / 2 * (pi / 2))"
    by (simp add: square_qnode_def norm_index_def)
next
  show "- (21 / 10) * pi \<noteq> 0.5 * (pi / 2 * (pi / 2) - pi / 2 * (pi / 2))"
    by simp
qed

text \<open>
  C2, evaluated where it fails. The claim: \<open>2 * L * W\<close> evaluations for every tensor of
  shape \<open>(L, W)\<close>. With the notebook's \<^verbatim>\<open>w\<close> of shape \<open>(3, 2)\<close> in place and a \<open>params\<close> of
  shape \<open>(1, 3)\<close>, the function makes 4 evaluations, not 6, and then raises IndexError at
  \<^verbatim>\<open>w[0, 2]\<close>. With \<open>params\<close> of shape \<open>(3, 2)\<close> it makes 12 and returns.
\<close>

theorem evaluations_cut_short:
  "fst (parameter_shift 0 zero_qnode 1 notebook_x
          \<lparr>heap = [notebook_w, Float2D 3 [[0, 0, 0]]], calls = []\<rparr>) = Inl IndexError
   \<and> length (calls (snd (parameter_shift 0 zero_qnode 1 notebook_x
          \<lparr>heap = [notebook_w, Float2D 3 [[0, 0, 0]]], calls = []\<rparr>))) = 4
   \<and> shape (Float2D 3 [[0, 0, 0]]) = [1, 3]
   \<and> fst (parameter_shift 0 zero_qnode 0 notebook_x \<lparr>heap = [notebook_w], calls = []\<rparr>)
       = Inr 1
   \<and> length (calls (snd (parameter_shift 0 zero_qnode 0 notebook_x
          \<lparr>heap = [notebook_w], calls = []\<rparr>))) = 12
   \<and> shape (heap (snd (parameter_shift 0 zero_qnode 0 notebook_x
          \<lparr>heap = [notebook_w], calls = []\<rparr>)) ! 1) = [3, 2]"
proof (intro conjI)
  show "fst (parameter_shift 0 zero_qnode 1 notebook_x
          \<lparr>heap = [notebook_w, Float2D 3 [[0, 0, 0]]], calls = []\<rparr>) = Inl IndexError"
    by (simp add: run_defs notebook_w_def zero_qnode_def upt_rec)
next
  show "length (calls (snd (parameter_shift 0 zero_qnode 1 notebook_x
          \<lparr>heap = [notebook_w, Float2D 3 [[0, 0, 0]]], calls = []\<rparr>))) = 4"
    by (simp add: run_defs notebook_w_def zero_qnode_def upt_rec)
next
  show "shape (Float2D 3 [[0, 0, 0]]) = [1, 3]" by simp
next
  show "fst (parameter_shift 0 zero_qnode 0 notebook_x \<lparr>heap = [notebook_w], calls = []\<rparr>)
       = Inr 1"
    by (simp add: run_defs notebook_w_def zero_qnode_def upt_rec)
next
  show "length (calls (snd (parameter_shift 0 zero_qnode 0 notebook_x
          \<lparr>heap = [notebook_w], calls = []\<rparr>))) = 12"
    by (simp add: run_defs notebook_w_def zero_qnode_def upt_rec)
next
  show "shape (heap (snd (parameter_shift 0 zero_qnode 0 notebook_x
          \<lparr>heap = [notebook_w], calls = []\<rparr>)) ! 1) = [3, 2]"
    by (simp add: run_defs notebook_w_def zero_qnode_def upt_rec)
qed

text \<open>
  C9, as the claim has it: any two \<open>params\<close> of the same shape give the same gradient
  tensor. They do not when their element types differ: \<^verbatim>\<open>np.zeros_like\<close> gives the result the
  element type of \<open>params\<close>, and the assignment \<^verbatim>\<open>gradients[i, j] = ...\<close> casts to it. With the
  notebook's \<^verbatim>\<open>w\<close> in place and the evaluator \<open>p[0, 0]\<close>, the float tensor \<open>[[0.0]]\<close> gives
  \<open>[[\<pi>/2]]\<close> and the integer tensor \<open>[[0]]\<close>, of the same shape, gives \<open>[[1]]\<close>.
\<close>

theorem same_shape_counterexample:
  "shape (Float2D 1 [[0]]) = shape (Int2D 1 [[0]])
   \<and> fst (parameter_shift 0 first_qnode 1 notebook_x
            \<lparr>heap = [notebook_w, Float2D 1 [[0]], Int2D 1 [[0]]], calls = []\<rparr>) = Inr 3
   \<and> heap (snd (parameter_shift 0 first_qnode 1 notebook_x
            \<lparr>heap = [notebook_w, Float2D 1 [[0]], Int2D 1 [[0]]], calls = []\<rparr>)) ! 3
       = Float2D 1 [[pi / 2]]
   \<and> fst (parameter_shift 0 first_qnode 2 notebook_x
            \<lparr>heap = [notebook_w, Float2D 1 [[0]], Int2D 1 [[0]]], calls = []\<rparr>) = Inr 3
   \<and> heap (snd (parameter_shift 0 first_qnode 2 notebook_x
            \<lparr>heap = [notebook_w, Float2D 1 [[0]], Int2D 1 [[0]]], calls = []\<rparr>)) ! 3
       = Int2D 1 [[1]]"
proof (intro conjI)
  show "shape (Float2D 1 [[0]]) = shape (Int2D 1 [[0]])" by simp
next
  show "fst (parameter_shift 0 first_qnode 1 notebook_x
            \<lparr>heap = [notebook_w, Float2D 1 [[0]], Int2D 1 [[0]]], calls = []\<rparr>) = Inr 3"
    by (simp add: run_defs notebook_w_def first_qnode_def upt_rec)
next
  show "heap (snd (parameter_shift 0 first_qnode 1 notebook_x
            \<lparr>heap = [notebook_w, Float2D 1 [[0]], Int2D 1 [[0]]], calls = []\<rparr>)) ! 3
       = Float2D 1 [[pi / 2]]"
    by (simp add: run_defs notebook_w_def first_qnode_def upt_rec)
next
  show "fst (parameter_shift 0 first_qnode 2 notebook_x
            \<lparr>heap = [notebook_w, Float2D 1 [[0]], Int2D 1 [[0]]], calls = []\<rparr>) = Inr 3"
    by (simp add: run_defs notebook_w_def first_qnode_def upt_rec)
next
  show "heap (snd (parameter_shift 0 first_qnode 2 notebook_x
            \<lparr>heap = [notebook_w, Float2D 1 [[0]], Int2D 1 [[0]]], calls = []\<rparr>)) ! 3
       = Int2D 1 [[1]]"
    by (simp add: run_defs notebook_w_def first_qnode_def upt_rec trunc_pi_half)
qed

text \<open>
  C9, amended: \<open>parameter_shift\<close> reads the shape and the element type of its \<open>params\<close>
  argument and nothing else: for two arguments of the same shape and element type the whole
  run is the same, result, store and log of evaluations, whatever their entries are. The
  entries of the result come from the module-level \<^verbatim>\<open>w\<close>: when \<open>params\<close> is a float tensor
  whose shape fits inside the shape of \<^verbatim>\<open>w\<close> and the evaluator returns on tensors of the
  shape of \<^verbatim>\<open>w\<close>, the function returns a new tensor of the shape of \<open>params\<close> whose entry
  \<open>(i, j)\<close> is the shift estimate of the entry \<open>(i, j)\<close> of \<^verbatim>\<open>w\<close>.
\<close>

theorem parameter_shift_reads_shape_and_dtype:
  fixes qnode :: "'e qnode"
  shows "(shape (heap s ! p1) = shape (heap s ! p2)
          \<and> dtype_of (heap s ! p1) = dtype_of (heap s ! p2) \<longrightarrow>
            parameter_shift w qnode p1 x s = parameter_shift w qnode p2 x s)
   \<and> (w < length (heap s) \<and> heap s ! w = Float2D Ww wrows \<and> well_formed (heap s ! w)
        \<and> heap s ! params = Float2D W rows \<and> length rows \<le> length wrows \<and> W \<le> Ww
        \<and> (\<forall>a. shape a = [length wrows, Ww] \<longrightarrow> (\<exists>v. qnode x a = Inr v))
      \<longrightarrow> fst (parameter_shift w qnode params x s) = Inr (length (heap s))
          \<and> heap (snd (parameter_shift w qnode params x s)) ! length (heap s)
              = Float2D W (map (\<lambda>i. map (estimate qnode x (heap s ! w) i) [0..<W])
                               [0..<length rows]))"
proof (intro conjI impI)
  assume "shape (heap s ! p1) = shape (heap s ! p2)
          \<and> dtype_of (heap s ! p1) = dtype_of (heap s ! p2)"
  then have "zeros (heap s ! p1) = zeros (heap s ! p2)" by (blast intro: zeros_shape)
  then show "parameter_shift w qnode p1 x s = parameter_shift w qnode p2 x s"
    by (simp add: parameter_shift_def zeros_like_def)
next
  assume a: "w < length (heap s) \<and> heap s ! w = Float2D Ww wrows \<and> well_formed (heap s ! w)
        \<and> heap s ! params = Float2D W rows \<and> length rows \<le> length wrows \<and> W \<le> Ww
        \<and> (\<forall>a. shape a = [length wrows, Ww] \<longrightarrow> (\<exists>v. qnode x a = Inr v))"
  from a have a1: "w < length (heap s)" and a2: "heap s ! w = Float2D Ww wrows"
    and a3: "well_formed (heap s ! w)" and a4: "heap s ! params = Float2D W rows"
    and a5: "length rows \<le> length wrows" and a6: "W \<le> Ww"
    and a7: "\<forall>a. shape a = [length wrows, Ww] \<longrightarrow> (\<exists>v. qnode x a = Inr v)"
    by blast+
  have "\<exists>s'. parameter_shift w qnode params x s = (Inr (length (heap s)), s')
           \<and> heap s' ! length (heap s) = Float2D W
                (map (\<lambda>i. map (estimate qnode x (heap s ! w) i) [0..<W]) [0..<length rows])
           \<and> length (new_calls s s') = 2 * length rows * W"
    by (rule parameter_shift_value [where qnode = qnode and x = x, OF a7 a1 a2 a3 a4 a5 a6])
  then show "fst (parameter_shift w qnode params x s) = Inr (length (heap s))"
    and "heap (snd (parameter_shift w qnode params x s)) ! length (heap s)
              = Float2D W (map (\<lambda>i. map (estimate qnode x (heap s ! w) i) [0..<W])
                               [0..<length rows])"
    by auto
qed

text \<open>
  The theorem on the notebook's \<^verbatim>\<open>w\<close> and the one-entry float tensors \<open>[[0.0]]\<close> and
  \<open>[[7.0]]\<close>, with the evaluator \<open>p[0, 0]\<^sup>2\<close>: both give \<open>[[-2.1 * \<pi>]]\<close>.
\<close>

theorem parameter_shift_reads_shape_and_dtype_witness:
  "shape (heap \<lparr>heap = [notebook_w, Float2D 1 [[0]], Float2D 1 [[7]]], calls = []\<rparr> ! 1)
     = shape (heap \<lparr>heap = [notebook_w, Float2D 1 [[0]], Float2D 1 [[7]]], calls = []\<rparr> ! 2)
   \<and> dtype_of (heap \<lparr>heap = [notebook_w, Float2D 1 [[0]], Float2D 1 [[7]]], calls = []\<rparr> ! 1)
     = dtype_of (heap \<lparr>heap = [notebook_w, Float2D 1 [[0]], Float2D 1 [[7]]], calls = []\<rparr> ! 2)
   \<and> parameter_shift 0 square_qnode 1 notebook_x
         \<lparr>heap = [notebook_w, Float2D 1 [[0]], Float2D 1 [[7]]], calls = []\<rparr>
       = parameter_shift 0 square_qnode 2 notebook_x
         \<lparr>heap = [notebook_w, Float2D 1 [[0]], Float2D 1 [[7]]], calls = []\<rparr>
   \<and> fst (parameter_shift 0 square_qnode 1 notebook_x
         \<lparr>heap = [notebook_w, Float2D 1 [[0]], Float2D 1 [[7]]], calls = []\<rparr>) = Inr 3
   \<and> heap (snd (parameter_shift 0 square_qnode 1 notebook_x
         \<lparr>heap = [notebook_w, Float2D 1 [[0]], Float2D 1 [[7]]], calls = []\<rparr>)) ! 3
       = Float2D 1 [[- (21 / 10) * pi]]"
proof -
  let ?s = "\<lparr>heap = [notebook_w, Float2D 1 [[0]], Float2D 1 [[7]]], calls = []\<rparr>"
  let ?rows = "[[- 21 / 10, 12 / 10], [- 14 / 10, - 39 / 10], [5 / 10, 2 / 10 :: real]]"
  have sh: "shape (heap ?s ! 1) = shape (heap ?s ! 2)" by simp
  have dt: "dtype_of (heap ?s ! 1) = dtype_of (heap ?s ! 2)" by simp
  have w: "0 < length (heap ?s)" "heap ?s ! 0 = Float2D 2 ?rows" "well_formed (heap ?s ! 0)"
    by (simp_all add: notebook_w_def)
  have p: "heap ?s ! 1 = Float2D 1 [[0]]" "length [[0::real]] \<le> length ?rows" "(1::nat) \<le> 2"
    by simp_all
  have t: "\<forall>a. shape a = [length ?rows, 2] \<longrightarrow> (\<exists>v. square_qnode notebook_x a = Inr v)"
    using square_total by (simp add: numeral_3_eq_3)
  have e: "map (\<lambda>i. map (estimate square_qnode notebook_x (heap ?s ! 0) i) [0..<1]) [0..<length [[0::real]]]
             = [[- (21 / 10) * pi]]"
    by (simp add: square_estimate)
  note th = parameter_shift_reads_shape_and_dtype
    [of ?s 1 2 0 square_qnode notebook_x 2 ?rows 1 1 "[[0]]"]
  from th sh dt have eq: "parameter_shift 0 square_qnode 1 notebook_x ?s
                        = parameter_shift 0 square_qnode 2 notebook_x ?s"
    by blast
  from th w p t
  have "fst (parameter_shift 0 square_qnode 1 notebook_x ?s) = Inr (length (heap ?s))
        \<and> heap (snd (parameter_shift 0 square_qnode 1 notebook_x ?s)) ! length (heap ?s)
            = Float2D 1 (map (\<lambda>i. map (estimate square_qnode notebook_x (heap ?s ! 0) i) [0..<1])
                             [0..<length [[0::real]]])"
    by blast
  then have val: "fst (parameter_shift 0 square_qnode 1 notebook_x ?s) = Inr 3
        \<and> heap (snd (parameter_shift 0 square_qnode 1 notebook_x ?s)) ! 3
            = Float2D 1 [[- (21 / 10) * pi]]"
    unfolding e by (simp add: numeral_3_eq_3)
  from sh dt eq val show ?thesis by blast
qed

text \<open>
  C10. For an empty two-dimensional tensor, with no rows or with rows of length 0,
  \<open>parameter_shift\<close> makes no evaluation, raises nothing and returns a new tensor of zeros
  of the same shape, which is empty too.
\<close>

theorem empty_tensor:
  assumes "heap s ! params = Float2D W rows" and "rows = [] \<or> W = 0"
  shows "parameter_shift w qnode params x s =
           (Inr (length (heap s)), s\<lparr>heap := heap s @ [zeros (Float2D W rows)]\<rparr>)
         \<and> shape (zeros (Float2D W rows)) = shape (Float2D W rows)
         \<and> new_calls s (snd (parameter_shift w qnode params x s)) = []"
proof (cases "rows = []")
  case True
  with assms(1) show ?thesis
    by (simp add: parameter_shift_def zeros_like_def alloc_def new_calls_def)
next
  case False
  with assms(2) have W: "W = 0" by simp
  let ?s0 = "s\<lparr>heap := heap s @ [Float2D 0 (replicate (length rows) [])]\<rparr>"
  have "(len_first (heap ?s0 ! length (heap s)) :: 'a error + nat) = Inr 0"
    using False by simp
  then have "outer_loop w qnode x (length (heap s)) [0..<length rows] ?s0 = (Inr (), ?s0)"
    by (rule outer_loop_no_columns)
  with assms(1) W show ?thesis
    by (simp add: parameter_shift_def zeros_like_def alloc_def new_calls_def)
qed

text \<open>The theorem on a tensor of shape \<open>(3, 0)\<close> and on one of shape \<open>(0, 2)\<close>.\<close>

theorem empty_tensor_witness:
  "heap \<lparr>heap = [notebook_w, Float2D 0 [[], [], []]], calls = []\<rparr> ! 1 = Float2D 0 [[], [], []]
   \<and> parameter_shift 0 zero_qnode 1 notebook_x
         \<lparr>heap = [notebook_w, Float2D 0 [[], [], []]], calls = []\<rparr>
       = (Inr 2, \<lparr>heap = [notebook_w, Float2D 0 [[], [], []], Float2D 0 [[], [], []]],
                  calls = []\<rparr>)
   \<and> heap \<lparr>heap = [notebook_w, Float2D 2 []], calls = []\<rparr> ! 1 = Float2D 2 []
   \<and> parameter_shift 0 zero_qnode 1 notebook_x \<lparr>heap = [notebook_w, Float2D 2 []], calls = []\<rparr>
       = (Inr 2, \<lparr>heap = [notebook_w, Float2D 2 [], Float2D 2 []], calls = []\<rparr>)"
proof -
  let ?s = "\<lparr>heap = [notebook_w, Float2D 0 [[], [], []]], calls = []\<rparr>"
  let ?t = "\<lparr>heap = [notebook_w, Float2D 2 []], calls = []\<rparr>"
  have h: "heap ?s ! 1 = Float2D 0 [[], [], []]" by simp
  have e: "[[], [], []] = ([] :: real list list) \<or> (0::nat) = 0" by simp
  have h': "heap ?t ! 1 = Float2D 2 []" by simp
  have e': "[] = ([] :: real list list) \<or> (2::nat) = 0" by simp
  from empty_tensor [OF h e, of 0 zero_qnode notebook_x]
    empty_tensor [OF h' e', of 0 zero_qnode notebook_x] h h'
  show ?thesis by (simp add: numeral_3_eq_3)
qed

section \<open>Failures\<close>

text \<open>
  C8. When an evaluation of the circuit raises during \<open>parameter_shift\<close>, the function
  ends with that very exception and returns no tensor, and the failed evaluation is the last
  one in the log: it is not repeated and no other evaluation follows it. (The log of the run
  extends the log before it.)
\<close>

theorem oracle_failure_aborts:
  assumes "parameter_shift w qnode params x s = (res, s')"
    and "k < length (new_calls s s')"
    and "qnode (fst (new_calls s s' ! k)) (snd (new_calls s s' ! k)) = Inl e"
  shows "res = Inl (OracleFailure e) \<and> Suc k = length (new_calls s s')
         \<and> calls s' = calls s @ new_calls s s'"
proof -
  from parameter_shift_run_ok [OF assms(1)] obtain cs where
    cs: "calls s' = calls s @ cs" and ok: "stops_at_failure qnode (failure res) cs"
    by (auto simp add: run_ok_def)
  have n: "new_calls s s' = cs" using cs by (simp add: new_calls_def)
  from ok assms(2,3) n have "failure res = Some (OracleFailure e) \<and> Suc k = length cs"
    by (simp add: stops_at_failure_def)
  then show ?thesis using n cs by (cases res) auto
qed

text \<open>
  The theorem on the one-entry tensor \<open>[[0]]\<close> with an evaluator that raises on a negative
  angle: the forward evaluation at \<open>\<pi>/2\<close> returns, the backward one at \<open>-\<pi>/2\<close> raises.
\<close>

theorem oracle_failure_aborts_witness:
  "parameter_shift 0 fragile_qnode 0 [] \<lparr>heap = [Float2D 1 [[0]]], calls = []\<rparr>
     = (Inl (OracleFailure ''negative angle''),
        \<lparr>heap = [Float2D 1 [[0]], Float2D 1 [[0]], Float2D 1 [[- (pi / 2)]]],
          calls = [([], Float2D 1 [[pi / 2]]), ([], Float2D 1 [[- (pi / 2)]])]\<rparr>)
   \<and> Suc 1 = length (new_calls \<lparr>heap = [Float2D 1 [[0]]], calls = []\<rparr>
        \<lparr>heap = [Float2D 1 [[0]], Float2D 1 [[0]], Float2D 1 [[- (pi / 2)]]],
          calls = [([], Float2D 1 [[pi / 2]]), ([], Float2D 1 [[- (pi / 2)]])]\<rparr>)"
proof -
  let ?s = "\<lparr>heap = [Float2D 1 [[0]]], calls = []\<rparr>"
  let ?s' = "\<lparr>heap = [Float2D 1 [[0]], Float2D 1 [[0]], Float2D 1 [[- (pi / 2)]]],
               calls = [([], Float2D 1 [[pi / 2]]), ([], Float2D 1 [[- (pi / 2)]])]\<rparr>"
  have run: "parameter_shift 0 fragile_qnode 0 [] ?s
               = (Inl (OracleFailure ''negative angle''), ?s')"
    by (simp add: run_defs fragile_qnode_def upt_rec)
  have k: "1 < length (new_calls ?s ?s')" by (simp add: new_calls_def)
  have f: "fragile_qnode (fst (new_calls ?s ?s' ! 1)) (snd (new_calls ?s ?s' ! 1))
             = Inl ''negative angle''"
    by (simp add: new_calls_def fragile_qnode_def norm_index_def)
  have "Suc 1 = length (new_calls ?s ?s')"
    using oracle_failure_aborts [OF run k f] by blast
  with run show ?thesis by (rule conjI)
qed

text \<open>
  C6, as the specification has it: a tensor whose rows differ in length makes
  \<open>parameter_shift\<close> fail with a ShapeError. On the rows \<open>[[1, 2], [3]]\<close> the failure is a
  TypeError.
\<close>

theorem ragged_counterexample:
  "\<not> rectangular [[1, 2], [3]]
   \<and> fst (parameter_shift 0 zero_qnode 1 notebook_x
            \<lparr>heap = [notebook_w, array [[1, 2], [3]]], calls = []\<rparr>) = Inl TypeError
   \<and> fst (parameter_shift 0 zero_qnode 1 notebook_x
            \<lparr>heap = [notebook_w, array [[1, 2], [3]]], calls = []\<rparr>) \<noteq> Inl ShapeError"
  by (simp add: run_defs rectangular_def array_def upt_rec)

text \<open>
  C6, amended: \<open>parameter_shift\<close> has no check of its argument, and no input at all makes
  it fail with a ShapeError. A nested list whose rows differ in length reaches it as a
  one-dimensional array of the row lists; the array of zeros made from it holds integers, and
  \<^verbatim>\<open>len(gradients[0])\<close> raises Python's TypeError in the first pass of the outer loop, before
  any evaluation of the circuit.
\<close>

theorem no_shape_error:
  "fst (parameter_shift w qnode params x s) \<noteq> Inl ShapeError
   \<and> (\<not> rectangular rows \<and> heap s ! params = array rows \<longrightarrow>
        parameter_shift w qnode params x s
          = (Inl TypeError, s\<lparr>heap := heap s @ [zeros (array rows)]\<rparr>))"
proof (intro conjI impI)
  show "fst (parameter_shift w qnode params x s) \<noteq> Inl ShapeError"
  proof
    assume a: "fst (parameter_shift w qnode params x s) = Inl ShapeError"
    obtain s' where "parameter_shift w qnode params x s = (Inl ShapeError, s')"
      using a by (cases "parameter_shift w qnode params x s") simp
    from parameter_shift_error [OF this] show False by simp
  qed
next
  assume a: "\<not> rectangular rows \<and> heap s ! params = array rows"
  then obtain r rs where rows: "rows = r # rs"
    using not_rectangular_rows [of rows] by (cases rows) auto
  from a have "array rows = Array1D (map PyList rows)"
    using not_rectangular_rows [of rows] by simp
  with a rows show "parameter_shift w qnode params x s
          = (Inl TypeError, s\<lparr>heap := heap s @ [zeros (array rows)]\<rparr>)"
    by (simp add: parameter_shift_def zeros_like_def alloc_def upt_rec)
qed

text \<open>The theorem on the rows \<open>[[1], [2, 3], [4]]\<close>.\<close>

theorem no_shape_error_witness:
  "\<not> rectangular [[1], [2, 3], [4]]
   \<and> heap \<lparr>heap = [notebook_w, array [[1], [2, 3], [4]]], calls = []\<rparr> ! 1
       = array [[1], [2, 3], [4]]
   \<and> parameter_shift 0 zero_qnode 1 notebook_x
         \<lparr>heap = [notebook_w, array [[1], [2, 3], [4]]], calls = []\<rparr>
       = (Inl TypeError,
          \<lparr>heap = [notebook_w, array [[1], [2, 3], [4]],
                   Array1D [PyInt 0, PyInt 0, PyInt 0]], calls = []\<rparr>)"
proof -
  let ?s = "\<lparr>heap = [notebook_w, array [[1], [2, 3], [4]]], calls = []\<rparr>"
  have r: "\<not> rectangular [[1], [2, 3], [4]]" by (simp add: rectangular_def)
  have h: "heap ?s ! 1 = array [[1], [2, 3], [4]]" by simp
  have z: "zeros (array [[1], [2, 3], [4]]) = Array1D [PyInt 0, PyInt 0, PyInt 0]"
    by (simp add: array_def rectangular_def numeral_3_eq_3)
  from no_shape_error [of 0 zero_qnode 1 notebook_x ?s "[[1], [2, 3], [4]]"] r h z
  show ?thesis by simp
qed

end
